theory Spec2Isabelle
  imports Complex_Main "HOL-Library.Sublist" "HOL-Library.Product_Lexorder" "HOL-Library.Option_ord"
begin

section \<open>Time representation\<close>

text \<open>
  The engine exchanges times as ISO 8601 strings, dates as \<open>YYYY-MM-DD\<close> strings and
  durations as numbers of minutes. In this development an ISO timestamp is the number of
  minutes since the epoch (an \<open>int\<close>), a date is the number of days since the epoch, and the
  process time zone is UTC, so that \<open>Date.getHours() * 60 + Date.getMinutes()\<close> of a
  timestamp \<open>t\<close> is \<open>t mod 1440\<close> and its \<open>toISOString().split('T')[0]\<close> is \<open>t div 1440\<close>.
  Comparing two ISO strings of this format with \<open>localeCompare\<close> is comparing the two
  integers. Minute counts are integers (the sources' \<open>number\<close>s are whole minutes).
\<close>

definition MINUTES_IN_DAY :: int where
  "MINUTES_IN_DAY = 1440"

text \<open>\<open>DEFAULT_APPOINTMENT_START_TIME = '09:00:00.000Z'\<close>, as minutes after midnight.\<close>

definition DEFAULT_APPOINTMENT_START_TIME :: int where
  "DEFAULT_APPOINTMENT_START_TIME = 540"

text \<open>The ISO date part of a timestamp, and the minutes of its day.\<close>

definition dateOf :: "int \<Rightarrow> int" where
  "dateOf t = t div 1440"

definition minutesOfDay :: "int \<Rightarrow> int" where
  "minutesOfDay t = t mod 1440"

section \<open>Conflict detection (utils/conflictDetection)\<close>

text \<open>
  A \<open>TimeChunk\<close> bound is \<open>string | number\<close>: a number of minutes that is already
  normalised, an \<open>HH:MM\<close> clock string, or an ISO timestamp.
\<close>

datatype TimeValue =
    MinuteOffset int
  | ClockTime int int
  | Timestamp int

record TimeChunk =
  chunk_startTime :: TimeValue
  chunk_endTime :: TimeValue


fun normalizeTime :: "TimeValue \<Rightarrow> int" where
  "normalizeTime (MinuteOffset m) = m"
| "normalizeTime (Timestamp t) = minutesOfDay t"
| "normalizeTime (ClockTime h m) = h * 60 + m"

definition isTimeOverlap :: "TimeChunk \<Rightarrow> TimeChunk \<Rightarrow> bool" where
  "isTimeOverlap chunk1 chunk2 =
     (let start1 = normalizeTime (chunk_startTime chunk1);
          end1 = normalizeTime (chunk_endTime chunk1);
          start2 = normalizeTime (chunk_startTime chunk2);
          end2 = normalizeTime (chunk_endTime chunk2)
      in \<not> (end1 \<le> start2 \<or> start1 \<ge> end2))"


text \<open>
  \<open>mergeTimeChunks\<close> sorts the chunks by normalised start (a stable sort) and sweeps
  them, keeping the current chunk's normalised bounds in \<open>currentStart\<close> and
  \<open>currentEnd\<close>. \<open>getTotalDuration\<close> reads only the normalised bounds of the merged
  chunks. On the ISO timestamps that the load calculation passes, \<open>denormalizeTime\<close>
  followed by \<open>normalizeTime\<close> gives the minutes back, so the merged chunks are kept
  here as pairs of normalised bounds.
\<close>

fun mergeSweep :: "int \<Rightarrow> int \<Rightarrow> (int \<times> int) list \<Rightarrow> (int \<times> int) list" where
  "mergeSweep currentStart currentEnd [] = [(currentStart, currentEnd)]"
| "mergeSweep currentStart currentEnd ((nextStart, nextEnd) # rest) =
     (if nextStart \<le> currentEnd
      then mergeSweep currentStart (max currentEnd nextEnd) rest
      else (currentStart, currentEnd) # mergeSweep nextStart nextEnd rest)"

definition mergeTimeChunks :: "TimeChunk list \<Rightarrow> (int \<times> int) list" where
  "mergeTimeChunks chunks =
     (case sort_key fst (map (\<lambda>c. (normalizeTime (chunk_startTime c), normalizeTime (chunk_endTime c))) chunks) of
        [] \<Rightarrow> []
      | (s, e) # rest \<Rightarrow> mergeSweep s e rest)"

definition getTotalDuration :: "TimeChunk list \<Rightarrow> int" where
  "getTotalDuration chunks = foldl (\<lambda>total (s, e). total + (e - s)) 0 (mergeTimeChunks chunks)"

section \<open>Combination generation (algorithms/slotFinder)\<close>

text \<open>
  \<open>generateCombinations(arr, k)\<close>: the three guards in the source's order, then the
  combinations with the first element followed by those without it.
\<close>

fun generateCombinations :: "'a list \<Rightarrow> int \<Rightarrow> 'a list list" where
  "generateCombinations arr k =
     (if k = 0 then [[]]
      else case arr of
        [] \<Rightarrow> []
      | first # rest \<Rightarrow>
          if k > int (length arr) then []
          else map (\<lambda>combo. first # combo) (generateCombinations rest (k - 1))
               @ generateCombinations rest k)"

declare generateCombinations.simps [simp del]

text \<open>
  The position of an element in the pool, and the strict lexicographic order on lists of
  positions, to state the order in which the subsets are generated.
\<close>

fun poolIndex :: "'a list \<Rightarrow> 'a \<Rightarrow> nat" where
  "poolIndex [] x = 0"
| "poolIndex (y # ys) x = (if x = y then 0 else Suc (poolIndex ys x))"

fun lexLess :: "nat list \<Rightarrow> nat list \<Rightarrow> bool" where
  "lexLess [] [] = False"
| "lexLess [] (b # bs) = True"
| "lexLess (a # as) [] = False"
| "lexLess (a # as) (b # bs) = (a < b \<or> (a = b \<and> lexLess as bs))"

section \<open>Data model (types)\<close>

datatype MeetingType = google_meet | zoom | microsoft_teams | phone_call | in_person

text \<open>
  \<open>InterviewSession\<close>. The optional \<open>type\<close> and \<open>allowTrainingInterviewers\<close> fields are
  read nowhere in the engine and are left out.
\<close>

record InterviewSession =
  session_id :: string
  session_name :: string
  duration :: int
  breakAfter :: int
  requiredInterviewers :: int
  session_order :: int
  session_meetingType :: "MeetingType option"
  session_location :: "string option"
  interviewerPool :: "string list option"

text \<open>A \<open>TimeRange\<close> holds two \<open>HH:MM\<close> strings, kept as (hours, minutes).\<close>

record TimeRange =
  range_startTime :: "int \<times> int"
  range_endTime :: "int \<times> int"

datatype DayOfWeek = sunday | monday | tuesday | wednesday | thursday | friday | saturday

datatype LimitType = hours | count

record LoadLimit =
  limit_type :: LimitType
  limit_max :: real

record Holiday =
  holiday_date :: int
  holiday_name :: string

text \<open>
  \<open>Interviewer\<close>. \<open>workHours\<close> maps a weekday to its optional range; \<open>blockedTimes\<close> are
  pairs (start, end) of timestamps. The \<open>timezone\<close>, \<open>recruitingBlockKeywords\<close> and
  \<open>skills\<close> fields are read nowhere in the availability check and are left out.
\<close>

record Interviewer =
  interviewer_id :: string
  interviewer_name :: string
  interviewer_email :: string
  workHours :: "DayOfWeek \<Rightarrow> TimeRange option"
  limits_daily :: LoadLimit
  limits_weekly :: LoadLimit
  holidays :: "Holiday list option"
  dayOffs :: "int list option"
  blockedTimes :: "(int \<times> int) list option"
  isTraining :: "bool option"

record CalendarEvent =
  event_id :: string
  event_title :: string
  event_start :: int
  event_end :: int

datatype AssignmentStatus = pending | accepted | declined

record InterviewerAssignment =
  interviewerId :: string
  assignment_name :: string
  assignment_email :: string
  assignment_isTraining :: "bool option"
  status :: "AssignmentStatus option"

text \<open>
  The generated identifiers are template strings that end in \<open>Date.now()\<close>:
  \<open>slot-<session id>-<now>\<close>, \<open>combo-<session ids joined by '-'>-<now>\<close> and
  \<open>plan-<dates joined by '-'>-<now>\<close>. They are kept as their parts.
\<close>

datatype Ident =
    SlotId string int
  | ComboId "string list" int
  | PlanId "int list" int

record InterviewSlot =
  slot_id :: Ident
  sessionId :: string
  sessionName :: string
  slot_startTime :: int
  slot_endTime :: int
  slot_interviewers :: "InterviewerAssignment list"
  slot_meetingType :: MeetingType
  slot_location :: "string option"

text \<open>
  \<open>loadDensity\<close> is a \<open>Record<string, number>\<close>, kept as the list of its entries in
  insertion order (the engine reads only the values of the entries, to average them).
\<close>

record SessionCombination =
  combination_id :: Ident
  combination_date :: int
  combination_slots :: "InterviewSlot list"
  combination_startTime :: int
  combination_endTime :: int
  totalDuration :: int
  loadDensity :: "(string \<times> real) list"

record RoundPlan =
  roundNumber :: nat
  round_date :: int
  combination :: SessionCombination
  round_sessions :: "InterviewSession list"

record MultiDayPlan =
  plan_id :: Ident
  plan_rounds :: "RoundPlan list"
  totalRounds :: nat
  plan_allInterviewers :: "string list"

text \<open>Every field of \<open>SchedulingOptions\<close> is optional: \<open>None\<close> is an omitted field.\<close>

record SchedulingOptions =
  respectWorkHours :: "bool option"
  respectHolidays :: "bool option"
  respectDayOffs :: "bool option"
  respectDailyLimits :: "bool option"
  respectWeeklyLimits :: "bool option"
  checkCalendarConflicts :: "bool option"
  excludeRecruitingBlocks :: "bool option"
  balanceLoad :: "bool option"
  maxResults :: "int option"
  includeTrainingInterviewers :: "bool option"

datatype ConflictType =
    calendar_event | work_hours | daily_limit | weekly_limit | holiday | day_off
  | recruiting_block | time_overlap | no_interviewers_available

text \<open>A \<open>SlotConflict\<close>, without its human-readable message.\<close>

record SlotConflict =
  conflict_type :: ConflictType
  conflict_interviewerId :: string
  conflict_event :: "CalendarEvent option"

text \<open>
  The errors of ../errors that the engine raises, and the \<open>TypeError\<close> that JavaScript
  raises on reading a property of \<open>undefined\<close>.
\<close>

datatype error = ValidationError string | SchedulingError string | TypeError

text \<open>\<open>Date.now()\<close>: the reading of the clock at its n-th call of a run.\<close>

type_synonym clock = "nat \<Rightarrow> int"

type_synonym calendar = "string \<Rightarrow> CalendarEvent list option"

text \<open>
  Truthiness of an optional flag (\<open>if (options.flag)\<close>), the test \<open>options.flag !== false\<close>,
  and the test \<open>options.maxResults && results.length >= options.maxResults\<close>.
\<close>

definition truthy :: "bool option \<Rightarrow> bool" where
  "truthy flag = (flag = Some True)"

definition notFalse :: "bool option \<Rightarrow> bool" where
  "notFalse flag = (flag \<noteq> Some False)"

definition maxReached :: "SchedulingOptions \<Rightarrow> 'a list \<Rightarrow> bool" where
  "maxReached options results =
     (case maxResults options of
        None \<Rightarrow> False
      | Some m \<Rightarrow> m \<noteq> 0 \<and> int (length results) \<ge> m)"

section \<open>Availability (utils/availabilityCheck)\<close>

record AvailabilityResult =
  available :: bool
  conflicts :: "SlotConflict list"

text \<open>\<open>Date.getDay()\<close>: day 0 of the epoch was a Thursday.\<close>

definition getDayOfWeek :: "int \<Rightarrow> DayOfWeek" where
  "getDayOfWeek t =
     [sunday, monday, tuesday, wednesday, thursday, friday, saturday]
       ! nat ((dateOf t + 4) mod 7)"

definition checkWorkHours :: "Interviewer \<Rightarrow> int \<Rightarrow> int \<Rightarrow> SlotConflict option" where
  "checkWorkHours interviewer start end =
     (case workHours interviewer (getDayOfWeek start) of
        None \<Rightarrow>
          Some \<lparr>conflict_type = work_hours, conflict_interviewerId = interviewer_id interviewer,
                conflict_event = None\<rparr>
      | Some wh \<Rightarrow>
          (let startMinutes = minutesOfDay start;
               endMinutes = minutesOfDay end;
               workStartMinutes = fst (range_startTime wh) * 60 + snd (range_startTime wh);
               workEndMinutes = fst (range_endTime wh) * 60 + snd (range_endTime wh)
           in if startMinutes < workStartMinutes \<or> endMinutes > workEndMinutes
              then Some \<lparr>conflict_type = work_hours,
                         conflict_interviewerId = interviewer_id interviewer,
                         conflict_event = None\<rparr>
              else None))"

definition checkHolidays :: "Interviewer \<Rightarrow> int \<Rightarrow> SlotConflict option" where
  "checkHolidays interviewer date =
     (case holidays interviewer of
        None \<Rightarrow> None
      | Some hs \<Rightarrow>
          (case find (\<lambda>h. holiday_date h = date) hs of
             Some h \<Rightarrow>
               Some \<lparr>conflict_type = holiday, conflict_interviewerId = interviewer_id interviewer,
                     conflict_event = None\<rparr>
           | None \<Rightarrow> None))"

definition checkDayOffs :: "Interviewer \<Rightarrow> int \<Rightarrow> SlotConflict option" where
  "checkDayOffs interviewer date =
     (case dayOffs interviewer of
        None \<Rightarrow> None
      | Some ds \<Rightarrow>
          if date \<in> set ds
          then Some \<lparr>conflict_type = day_off, conflict_interviewerId = interviewer_id interviewer,
                     conflict_event = None\<rparr>
          else None)"

definition checkBlockedTimes :: "Interviewer \<Rightarrow> int \<Rightarrow> int \<Rightarrow> SlotConflict option" where
  "checkBlockedTimes interviewer slotStart slotEnd =
     (case blockedTimes interviewer of
        None \<Rightarrow> None
      | Some bs \<Rightarrow>
          (case find (\<lambda>(blockedStart, blockedEnd).
                        \<not> (slotEnd \<le> blockedStart \<or> slotStart \<ge> blockedEnd)) bs of
             Some b \<Rightarrow>
               Some \<lparr>conflict_type = recruiting_block,
                     conflict_interviewerId = interviewer_id interviewer,
                     conflict_event = None\<rparr>
           | None \<Rightarrow> None))"

text \<open>A conflict, when there is one, is pushed on the list of conflicts.\<close>

definition pushConflict :: "SlotConflict option \<Rightarrow> SlotConflict list" where
  "pushConflict c = (case c of None \<Rightarrow> [] | Some x \<Rightarrow> [x])"

definition isInterviewerAvailable ::
  "Interviewer \<Rightarrow> int \<Rightarrow> int \<Rightarrow> SchedulingOptions \<Rightarrow> AvailabilityResult" where
  "isInterviewerAvailable interviewer start end options =
     (let date = dateOf start;
          cs = (if notFalse (respectWorkHours options)
                then pushConflict (checkWorkHours interviewer start end) else [])
             @ (if notFalse (respectHolidays options)
                then pushConflict (checkHolidays interviewer date) else [])
             @ (if notFalse (respectDayOffs options)
                then pushConflict (checkDayOffs interviewer date) else [])
             @ pushConflict (checkBlockedTimes interviewer start end)
      in \<lparr>available = (cs = []), conflicts = cs\<rparr>)"

section \<open>Load calculation (utils/loadCalculation)\<close>

text \<open>
  A density is the quotient \<open>current / max\<close> of two JavaScript numbers: a division by
  zero gives an infinity or \<open>NaN\<close>, and every comparison with \<open>NaN\<close> is false.
\<close>

datatype jsnum = Finite real | PosInfinity | NegInfinity | NaN

definition jsDivide :: "real \<Rightarrow> real \<Rightarrow> jsnum" where
  "jsDivide a b =
     (if b \<noteq> 0 then Finite (a / b)
      else if a > 0 then PosInfinity
      else if a < 0 then NegInfinity
      else NaN)"

fun jsGreater :: "jsnum \<Rightarrow> real \<Rightarrow> bool" where
  "jsGreater (Finite x) y = (x > y)"
| "jsGreater PosInfinity y = True"
| "jsGreater NegInfinity y = False"
| "jsGreater NaN y = False"

fun jsGreaterEq :: "jsnum \<Rightarrow> real \<Rightarrow> bool" where
  "jsGreaterEq (Finite x) y = (x \<ge> y)"
| "jsGreaterEq PosInfinity y = True"
| "jsGreaterEq NegInfinity y = False"
| "jsGreaterEq NaN y = False"

record Load =
  current :: real
  load_max :: real
  density :: jsnum

record LoadInfo =
  daily :: Load
  weekly :: Load

definition eventChunk :: "CalendarEvent \<Rightarrow> TimeChunk" where
  "eventChunk e = \<lparr>chunk_startTime = Timestamp (event_start e), chunk_endTime = Timestamp (event_end e)\<rparr>"

definition calculateSlotDuration :: "InterviewSlot \<Rightarrow> int" where
  "calculateSlotDuration slot = slot_endTime slot - slot_startTime slot"

definition loadOf :: "LoadLimit \<Rightarrow> CalendarEvent list \<Rightarrow> int \<Rightarrow> Load" where
  "loadOf limit events additionalDuration =
     (let cur = (if limit_type limit = hours
                 then real_of_int (getTotalDuration (map eventChunk events) + additionalDuration) / 60
                 else real (length events + 1))
      in \<lparr>current = cur, load_max = limit_max limit, density = jsDivide cur (limit_max limit)\<rparr>)"

definition calculateDailyLoad ::
  "Interviewer \<Rightarrow> int \<Rightarrow> int \<Rightarrow> CalendarEvent list \<Rightarrow> Load" where
  "calculateDailyLoad interviewer date additionalDuration existingEvents =
     (let dateStr = dateOf date;
          dayEvents = filter (\<lambda>event. dateOf (event_start event) = dateStr) existingEvents
      in loadOf (limits_daily interviewer) dayEvents additionalDuration)"

definition calculateWeeklyLoad ::
  "Interviewer \<Rightarrow> int \<Rightarrow> int \<Rightarrow> CalendarEvent list \<Rightarrow> Load" where
  "calculateWeeklyLoad interviewer date additionalDuration existingEvents =
     (let weekStart = (dateOf date - (dateOf date + 4) mod 7) * 1440;
          weekEnd = weekStart + 7 * 1440;
          weekEvents = filter (\<lambda>event. event_start event \<ge> weekStart \<and> event_start event < weekEnd)
                         existingEvents
      in loadOf (limits_weekly interviewer) weekEvents additionalDuration)"

definition calculateInterviewerLoad ::
  "Interviewer \<Rightarrow> InterviewSlot \<Rightarrow> CalendarEvent list \<Rightarrow> SchedulingOptions \<Rightarrow> LoadInfo" where
  "calculateInterviewerLoad interviewer proposedSlot existingEvents options =
     (let slotDate = slot_startTime proposedSlot;
          slotDuration = calculateSlotDuration proposedSlot
      in \<lparr>daily = calculateDailyLoad interviewer slotDate slotDuration existingEvents,
          weekly = calculateWeeklyLoad interviewer slotDate slotDuration existingEvents\<rparr>)"

datatype LoadCategory = low | medium | high | over_limit

text \<open>The thresholds \<open>0.7\<close>, \<open>0.9\<close> and \<open>1.0\<close> are read as the exact decimal values.\<close>

definition getLoadDensityCategory :: "jsnum \<Rightarrow> LoadCategory" where
  "getLoadDensityCategory d =
     (if jsGreater d 1 then over_limit
      else if jsGreaterEq d (9 / 10) then high
      else if jsGreaterEq d (7 / 10) then medium
      else low)"

definition wouldExceedLoadLimits :: "LoadInfo \<Rightarrow> SchedulingOptions \<Rightarrow> bool" where
  "wouldExceedLoadLimits loadInfo options =
     (if truthy (respectDailyLimits options) \<and> jsGreater (density (daily loadInfo)) 1 then True
      else if truthy (respectWeeklyLimits options) \<and> jsGreater (density (weekly loadInfo)) 1 then True
      else False)"

section \<open>Slot finding (algorithms/slotFinder)\<close>

subsection \<open>Interviewer combinations per session\<close>

text \<open>
  \<open>generateCombinationsWithTraining\<close>: for each number of training interviewers from 1 to
  their count, every regular combination followed by every training combination.
\<close>

definition generateCombinationsWithTraining :: "Interviewer list \<Rightarrow> int \<Rightarrow> Interviewer list list" where
  "generateCombinationsWithTraining pool required =
     (let regular = filter (\<lambda>i. \<not> truthy (isTraining i)) pool;
          training = filter (\<lambda>i. truthy (isTraining i)) pool
      in if training = [] then []
         else concat (map (\<lambda>numTraining.
                (let numRegular = required - numTraining
                 in if numRegular < 0 \<or> numRegular > int (length regular) then []
                    else (let regularCombos = generateCombinations regular numRegular;
                              trainingCombos = generateCombinations training numTraining
                          in concat (map (\<lambda>regCombo.
                                map (\<lambda>trainCombo. regCombo @ trainCombo) trainingCombos)
                              regularCombos))))
              [1..int (length training)]))"

text \<open>The combinations of one session: the body of the loop over the sessions.\<close>

definition sessionCombos :: "Interviewer list \<Rightarrow> SchedulingOptions \<Rightarrow> InterviewSession \<Rightarrow> Interviewer list list" where
  "sessionCombos allInterviewers options session =
     (let pool0 = (case interviewerPool session of
                     None \<Rightarrow> allInterviewers
                   | Some ids \<Rightarrow> filter (\<lambda>i. interviewer_id i \<in> set ids) allInterviewers);
          pool = (if \<not> truthy (includeTrainingInterviewers options)
                  then filter (\<lambda>i. \<not> truthy (isTraining i)) pool0 else pool0);
          combos = generateCombinations pool (requiredInterviewers session)
      in if truthy (includeTrainingInterviewers options)
         then combos @ generateCombinationsWithTraining pool (requiredInterviewers session)
         else combos)"

text \<open>The result is a \<open>Map\<close> from session id to combinations: a later session with the
  same id replaces the entry.\<close>

definition generateInterviewerCombinations ::
  "InterviewSession list \<Rightarrow> Interviewer list \<Rightarrow> SchedulingOptions
   \<Rightarrow> (string \<Rightarrow> Interviewer list list option)" where
  "generateInterviewerCombinations sessions allInterviewers options =
     foldl (\<lambda>combinations session.
              combinations(session_id session \<mapsto> sessionCombos allInterviewers options session))
       Map.empty sessions"

subsection \<open>Helper functions\<close>

definition addMinutesToTime :: "int \<Rightarrow> int \<Rightarrow> int" where
  "addMinutesToTime timeStr minutes = timeStr + minutes"

text \<open>\<open>addDays\<close> of date-fns, on dates (the date string of a placed round is read as the
  date it denotes).\<close>

definition addDays :: "int \<Rightarrow> int \<Rightarrow> int" where
  "addDays date amount = date + amount"

text \<open>\<open>Math.ceil(minutes / MINUTES_IN_DAY)\<close> on whole minutes.\<close>

definition gapDaysOf :: "int \<Rightarrow> int" where
  "gapDaysOf minutes = - ((- minutes) div MINUTES_IN_DAY)"

fun groupLoop ::
  "InterviewSession list \<Rightarrow> InterviewSession list list \<Rightarrow> InterviewSession list
   \<Rightarrow> InterviewSession list list" where
  "groupLoop [] roundsAcc currentRound =
     (if currentRound \<noteq> [] then roundsAcc @ [currentRound] else roundsAcc)"
| "groupLoop (session # rest) roundsAcc currentRound =
     (if breakAfter session \<ge> MINUTES_IN_DAY
      then groupLoop rest (roundsAcc @ [currentRound @ [session]]) []
      else groupLoop rest roundsAcc (currentRound @ [session]))"

text \<open>The comparator \<open>a.order - b.order\<close> with the stable \<open>Array.prototype.sort\<close>.\<close>

definition groupSessionsIntoRounds :: "InterviewSession list \<Rightarrow> InterviewSession list list" where
  "groupSessionsIntoRounds sessions = groupLoop (sort_key session_order sessions) [] []"

definition calculateSessionStartTime :: "InterviewSlot list \<Rightarrow> InterviewSession \<Rightarrow> int \<Rightarrow> int" where
  "calculateSessionStartTime previousSlots session date =
     (if previousSlots = [] then date * 1440 + DEFAULT_APPOINTMENT_START_TIME
      else addMinutesToTime (slot_endTime (last previousSlots)) (breakAfter session))"

definition calculateTotalDuration :: "InterviewSlot list \<Rightarrow> int" where
  "calculateTotalDuration slotList =
     (if slotList = [] then 0
      else slot_endTime (last slotList) - slot_startTime (hd slotList))"

text \<open>\<open>slotCounts[id] = (slotCounts[id] || 0) + 1\<close> on the entries of the record.\<close>

fun bumpCount :: "(string \<times> nat) list \<Rightarrow> string \<Rightarrow> (string \<times> nat) list" where
  "bumpCount [] k = [(k, 1)]"
| "bumpCount ((k', c) # rest) k =
     (if k = k' then (k', c + 1) # rest else (k', c) # bumpCount rest k)"

definition assignedIds :: "InterviewSlot list \<Rightarrow> string list" where
  "assignedIds slotList = concat (map (\<lambda>slot. map interviewerId (slot_interviewers slot)) slotList)"

definition calculateLoadDensity :: "InterviewSlot list \<Rightarrow> Interviewer list \<Rightarrow> (string \<times> real) list" where
  "calculateLoadDensity slotList allInterviewers =
     (let slotCounts = foldl bumpCount [] (assignedIds slotList)
      in map (\<lambda>(k, c). (k, real c / 4)) slotCounts)"

definition getAverageLoadDensity :: "(string \<times> real) list \<Rightarrow> real" where
  "getAverageLoadDensity ld =
     (if ld = [] then 0 else sum_list (map snd ld) / real (length ld))"

definition hasInterviewerConflictWithPreviousRounds ::
  "SessionCombination \<Rightarrow> RoundPlan list \<Rightarrow> bool" where
  "hasInterviewerConflictWithPreviousRounds slotCombo previousRounds =
     (let currentInterviewers = set (assignedIds (combination_slots slotCombo))
      in list_ex (\<lambda>round.
           list_ex (\<lambda>intId. intId \<in> currentInterviewers)
             (assignedIds (combination_slots (combination round))))
         previousRounds)"

text \<open>A \<open>Set\<close> keeps its elements in the order of their first insertion.\<close>

definition extractAllInterviewers :: "RoundPlan list \<Rightarrow> string list" where
  "extractAllInterviewers roundPlans =
     foldl (\<lambda>acc k. if k \<in> set acc then acc else acc @ [k]) []
       (concat (map (\<lambda>round. assignedIds (combination_slots (combination round))) roundPlans))"

definition generateSlotCombinationId :: "InterviewSlot list \<Rightarrow> int \<Rightarrow> Ident" where
  "generateSlotCombinationId slotList nowMs = ComboId (map sessionId slotList) nowMs"

definition generatePlanId :: "RoundPlan list \<Rightarrow> int \<Rightarrow> Ident" where
  "generatePlanId roundPlans nowMs = PlanId (map round_date roundPlans) nowMs"

subsection \<open>Conflicts of a proposed slot\<close>

definition slotChunk :: "InterviewSlot \<Rightarrow> TimeChunk" where
  "slotChunk slot =
     \<lparr>chunk_startTime = Timestamp (slot_startTime slot), chunk_endTime = Timestamp (slot_endTime slot)\<rparr>"

text \<open>The body of the loop of \<open>checkSlotConflicts\<close> over the interviewers of the slot.\<close>

definition interviewerConflicts ::
  "InterviewSlot \<Rightarrow> calendar \<Rightarrow> SchedulingOptions \<Rightarrow> Interviewer \<Rightarrow> SlotConflict list" where
  "interviewerConflicts slot calendarEvents options interviewer =
     (let isAvailable = isInterviewerAvailable interviewer (slot_startTime slot) (slot_endTime slot) options;
          events = (case calendarEvents (interviewer_id interviewer) of None \<Rightarrow> [] | Some es \<Rightarrow> es)
      in (if \<not> available isAvailable then conflicts isAvailable else [])
         @ (if truthy (checkCalendarConflicts options)
            then map (\<lambda>event. \<lparr>conflict_type = calendar_event,
                                conflict_interviewerId = interviewer_id interviewer,
                                conflict_event = Some event\<rparr>)
                   (filter (\<lambda>event. isTimeOverlap (slotChunk slot) (eventChunk event)) events)
            else [])
         @ (if truthy (respectDailyLimits options) \<or> truthy (respectWeeklyLimits options)
            then (let loadInfo = calculateInterviewerLoad interviewer slot events options
                  in (if truthy (respectDailyLimits options) \<and> jsGreater (density (daily loadInfo)) 1
                      then [\<lparr>conflict_type = daily_limit,
                              conflict_interviewerId = interviewer_id interviewer,
                              conflict_event = None\<rparr>]
                      else [])
                     @ (if truthy (respectWeeklyLimits options) \<and> jsGreater (density (weekly loadInfo)) 1
                        then [\<lparr>conflict_type = weekly_limit,
                                conflict_interviewerId = interviewer_id interviewer,
                                conflict_event = None\<rparr>]
                        else []))
            else []))"

definition checkSlotConflicts ::
  "InterviewSlot \<Rightarrow> Interviewer list \<Rightarrow> calendar \<Rightarrow> SchedulingOptions \<Rightarrow> SlotConflict list" where
  "checkSlotConflicts slot interviewerCombo calendarEvents options =
     concat (map (interviewerConflicts slot calendarEvents options) interviewerCombo)"

text \<open>\<open>createAndCheckSlot\<close>; \<open>nowMs\<close> is the reading of \<open>Date.now()\<close> put in the slot id.\<close>

definition createSlot :: "InterviewSession \<Rightarrow> Interviewer list \<Rightarrow> int \<Rightarrow> int \<Rightarrow> InterviewSlot" where
  "createSlot session interviewerCombo start nowMs =
     \<lparr>slot_id = SlotId (session_id session) nowMs,
      sessionId = session_id session,
      sessionName = session_name session,
      slot_startTime = start,
      slot_endTime = addMinutesToTime start (duration session),
      slot_interviewers = map (\<lambda>i. \<lparr>interviewerId = interviewer_id i,
                                     assignment_name = interviewer_name i,
                                     assignment_email = interviewer_email i,
                                     assignment_isTraining = isTraining i,
                                     status = Some pending\<rparr>) interviewerCombo,
      slot_meetingType = (case session_meetingType session of None \<Rightarrow> google_meet | Some m \<Rightarrow> m),
      slot_location = session_location session\<rparr>"

definition createAndCheckSlot ::
  "InterviewSession \<Rightarrow> Interviewer list \<Rightarrow> int \<Rightarrow> calendar \<Rightarrow> SchedulingOptions \<Rightarrow> int
   \<Rightarrow> InterviewSlot option" where
  "createAndCheckSlot session interviewerCombo start calendarEvents options nowMs =
     (let slot = createSlot session interviewerCombo start nowMs
      in if checkSlotConflicts slot interviewerCombo calendarEvents options = []
         then Some slot else None)"

subsection \<open>Single-day search\<close>

text \<open>
  The search threads two pieces of state through its recursion: the \<open>results\<close> array it
  pushes to, and the number of readings of \<open>Date.now()\<close> made so far. A property read of
  \<open>undefined\<close> aborts the search with a \<open>TypeError\<close>.
\<close>

type_synonym 'r search_state = "'r list \<times> nat"

text \<open>
  The loop of \<open>exploreSlotCombinations\<close> over the interviewer combinations of the
  current session; \<open>recurse\<close> is the recursive call on the next session index. A slot is
  created, and the clock read, for every combination tried.
\<close>

fun tryCombinations ::
  "(InterviewSlot \<Rightarrow> SessionCombination search_state \<Rightarrow> error + SessionCombination search_state)
   \<Rightarrow> clock \<Rightarrow> InterviewSession \<Rightarrow> int \<Rightarrow> calendar \<Rightarrow> SchedulingOptions
   \<Rightarrow> Interviewer list list \<Rightarrow> SessionCombination search_state
   \<Rightarrow> error + SessionCombination search_state" where
  "tryCombinations recurse now session start calendarEvents options [] st = Inr st"
| "tryCombinations recurse now session start calendarEvents options (interviewerCombo # rest) st =
     (case createAndCheckSlot session interviewerCombo start calendarEvents options (now (snd st)) of
        None \<Rightarrow>
          tryCombinations recurse now session start calendarEvents options rest (fst st, Suc (snd st))
      | Some slot \<Rightarrow>
          (case recurse slot (fst st, Suc (snd st)) of
             Inl e \<Rightarrow> Inl e
           | Inr st' \<Rightarrow>
               if maxReached options (fst st') then Inr st'
               else tryCombinations recurse now session start calendarEvents options rest st'))"

text \<open>
  \<open>exploreSlotCombinations\<close>. The first argument is the list of the sessions from
  \<open>sessionIndex\<close> on (\<open>sessions.slice(sessionIndex)\<close>): it is empty exactly when
  \<open>sessionIndex >= sessions.length\<close>, and its head is \<open>sessions[sessionIndex]\<close>.
\<close>

primrec exploreSlotCombinations ::
  "InterviewSession list \<Rightarrow> clock \<Rightarrow> (string \<Rightarrow> Interviewer list list option)
   \<Rightarrow> Interviewer list \<Rightarrow> int \<Rightarrow> calendar \<Rightarrow> SchedulingOptions \<Rightarrow> InterviewSlot list
   \<Rightarrow> SessionCombination search_state \<Rightarrow> error + SessionCombination search_state" where
  "exploreSlotCombinations [] now sessionCombinations allInterviewers date calendarEvents options
     currentSlots st =
     (case currentSlots of
        [] \<Rightarrow> Inl TypeError
      | firstSlot # _ \<Rightarrow>
          Inr (fst st @
               [\<lparr>combination_id = generateSlotCombinationId currentSlots (now (snd st)),
                 combination_date = date,
                 combination_slots = currentSlots,
                 combination_startTime = slot_startTime firstSlot,
                 combination_endTime = slot_endTime (last currentSlots),
                 totalDuration = calculateTotalDuration currentSlots,
                 loadDensity = calculateLoadDensity currentSlots allInterviewers\<rparr>],
               Suc (snd st)))"
| "exploreSlotCombinations (session # rest) now sessionCombinations allInterviewers date
     calendarEvents options currentSlots st =
     (let combinations = (case sessionCombinations (session_id session) of
                            None \<Rightarrow> [] | Some cs \<Rightarrow> cs);
          start = calculateSessionStartTime currentSlots session date
      in tryCombinations
           (\<lambda>slot st'. exploreSlotCombinations rest now sessionCombinations allInterviewers date
                          calendarEvents options (currentSlots @ [slot]) st')
           now session start calendarEvents options combinations st)"

definition generateAllSlotCombinations ::
  "clock \<Rightarrow> InterviewSession list \<Rightarrow> (string \<Rightarrow> Interviewer list list option)
   \<Rightarrow> Interviewer list \<Rightarrow> int \<Rightarrow> calendar \<Rightarrow> SchedulingOptions \<Rightarrow> nat
   \<Rightarrow> error + SessionCombination search_state" where
  "generateAllSlotCombinations now sortedSessions sessionCombinations allInterviewers date
     calendarEvents options tick =
     exploreSlotCombinations sortedSessions now sessionCombinations allInterviewers date
       calendarEvents options [] ([], tick)"

text \<open>
  The comparator of the final sort orders by \<open>startTime\<close>, then by average load density;
  \<open>Array.prototype.sort\<close> is stable. The key is the pair, in lexicographic order.
\<close>

definition rankKey :: "SessionCombination \<Rightarrow> int \<times> real" where
  "rankKey c = (combination_startTime c, getAverageLoadDensity (loadDensity c))"

definition findSlotsForDay ::
  "clock \<Rightarrow> InterviewSession list \<Rightarrow> Interviewer list \<Rightarrow> int \<Rightarrow> calendar
   \<Rightarrow> SchedulingOptions \<Rightarrow> nat \<Rightarrow> error + SessionCombination search_state" where
  "findSlotsForDay now sessions allInterviewers date calendarEvents options tick =
     (let sortedSessions = sort_key session_order sessions;
          sessionCombinations = generateInterviewerCombinations sortedSessions allInterviewers options
      in case generateAllSlotCombinations now sortedSessions sessionCombinations allInterviewers
                date calendarEvents options tick of
           Inl e \<Rightarrow> Inl e
         | Inr st \<Rightarrow> Inr (sort_key rankKey (fst st), snd st))"

subsection \<open>Multi-day search\<close>

text \<open>
  The loop \<open>while (isBefore(currentDate, end) || isEqual(currentDate, end))\<close> over the
  dates, with the test on \<open>maxResults\<close> after each date.
\<close>

function dateLoop ::
  "(int \<Rightarrow> 'r search_state \<Rightarrow> error + 'r search_state) \<Rightarrow> SchedulingOptions
   \<Rightarrow> int \<Rightarrow> int \<Rightarrow> 'r search_state \<Rightarrow> error + 'r search_state" where
  "dateLoop body options currentDate end st =
     (if currentDate \<le> end
      then (case body currentDate st of
              Inl e \<Rightarrow> Inl e
            | Inr st' \<Rightarrow>
                if maxReached options (fst st') then Inr st'
                else dateLoop body options (currentDate + 1) end st')
      else Inr st)"
  by pat_completeness auto
termination
  by (relation "measure (\<lambda>(body, options, currentDate, end, st). nat (end + 1 - currentDate))") auto

declare dateLoop.simps [simp del]

text \<open>
  The loop of \<open>findSlotsForRound\<close> over the combinations found for the date; \<open>recurse\<close> is
  the recursive call of \<open>findRoundSlots\<close> on the next round.
\<close>

fun tryDaySlots ::
  "(RoundPlan \<Rightarrow> MultiDayPlan search_state \<Rightarrow> error + MultiDayPlan search_state)
   \<Rightarrow> SchedulingOptions \<Rightarrow> RoundPlan list \<Rightarrow> nat \<Rightarrow> int \<Rightarrow> InterviewSession list
   \<Rightarrow> SessionCombination list \<Rightarrow> MultiDayPlan search_state
   \<Rightarrow> error + MultiDayPlan search_state" where
  "tryDaySlots recurse options previousRounds currentRoundIndex currentDate currentRoundSessions [] st =
     Inr st"
| "tryDaySlots recurse options previousRounds currentRoundIndex currentDate currentRoundSessions
     (slotCombo # rest) st =
     (if hasInterviewerConflictWithPreviousRounds slotCombo previousRounds
      then tryDaySlots recurse options previousRounds currentRoundIndex currentDate
             currentRoundSessions rest st
      else (case recurse \<lparr>roundNumber = currentRoundIndex, round_date = currentDate,
                            combination = slotCombo, round_sessions = currentRoundSessions\<rparr> st of
              Inl e \<Rightarrow> Inl e
            | Inr st' \<Rightarrow>
                if maxReached options (fst st') then Inr st'
                else tryDaySlots recurse options previousRounds currentRoundIndex currentDate
                       currentRoundSessions rest st'))"

definition findSlotsForRound ::
  "(RoundPlan \<Rightarrow> MultiDayPlan search_state \<Rightarrow> error + MultiDayPlan search_state)
   \<Rightarrow> clock \<Rightarrow> int \<Rightarrow> InterviewSession list \<Rightarrow> Interviewer list \<Rightarrow> calendar
   \<Rightarrow> SchedulingOptions \<Rightarrow> RoundPlan list \<Rightarrow> nat \<Rightarrow> MultiDayPlan search_state
   \<Rightarrow> error + MultiDayPlan search_state" where
  "findSlotsForRound recurse now currentDate currentRoundSessions allInterviewers calendarEvents
     options previousRounds currentRoundIndex st =
     (case findSlotsForDay now currentRoundSessions allInterviewers currentDate calendarEvents
             options (snd st) of
        Inl e \<Rightarrow> Inl e
      | Inr day \<Rightarrow>
          tryDaySlots recurse options previousRounds currentRoundIndex currentDate
            currentRoundSessions (fst day) (fst st, snd day))"

text \<open>
  The start of the search for a round: \<open>startDate\<close> for the first round; afterwards the
  date of the last placed round plus \<open>Math.ceil(lastSession.breakAfter / MINUTES_IN_DAY)\<close>
  days, where \<open>lastSession = currentRoundSessions[0]\<close>.
\<close>

definition searchStart :: "RoundPlan list \<Rightarrow> InterviewSession list \<Rightarrow> int \<Rightarrow> error + int" where
  "searchStart previousRounds currentRoundSessions startDate =
     (if previousRounds = [] then Inr startDate
      else (case currentRoundSessions of
              [] \<Rightarrow> Inl TypeError
            | lastSession # _ \<Rightarrow>
                Inr (addDays (round_date (last previousRounds)) (gapDaysOf (breakAfter lastSession)))))"

text \<open>
  \<open>findRoundSlots\<close>. The first argument is the list of the rounds from
  \<open>currentRoundIndex\<close> on; \<open>roundCount\<close> is \<open>rounds.length\<close>.
\<close>

primrec findRoundSlots ::
  "InterviewSession list list \<Rightarrow> clock \<Rightarrow> nat \<Rightarrow> nat \<Rightarrow> RoundPlan list \<Rightarrow> int \<Rightarrow> int
   \<Rightarrow> Interviewer list \<Rightarrow> calendar \<Rightarrow> SchedulingOptions \<Rightarrow> MultiDayPlan search_state
   \<Rightarrow> error + MultiDayPlan search_state" where
  "findRoundSlots [] now roundCount currentRoundIndex previousRounds startDate endDate allInterviewers
     calendarEvents options st =
     Inr (fst st @
          [\<lparr>plan_id = generatePlanId previousRounds (now (snd st)),
            plan_rounds = previousRounds,
            totalRounds = roundCount,
            plan_allInterviewers = extractAllInterviewers previousRounds\<rparr>],
          Suc (snd st))"
| "findRoundSlots (currentRoundSessions # rest) now roundCount currentRoundIndex previousRounds
     startDate endDate allInterviewers calendarEvents options st =
     (case searchStart previousRounds currentRoundSessions startDate of
        Inl e \<Rightarrow> Inl e
      | Inr searchStartDate \<Rightarrow>
          dateLoop
            (\<lambda>currentDate st'.
               findSlotsForRound
                 (\<lambda>roundPlan st''.
                    findRoundSlots rest now roundCount (Suc currentRoundIndex)
                      (previousRounds @ [roundPlan]) startDate endDate allInterviewers
                      calendarEvents options st'')
                 now currentDate currentRoundSessions allInterviewers calendarEvents options
                 previousRounds currentRoundIndex st')
            options searchStartDate endDate st)"

definition findMultiDaySlots ::
  "clock \<Rightarrow> InterviewSession list \<Rightarrow> Interviewer list \<Rightarrow> int \<times> int \<Rightarrow> calendar
   \<Rightarrow> SchedulingOptions \<Rightarrow> nat \<Rightarrow> error + MultiDayPlan search_state" where
  "findMultiDaySlots now sessions allInterviewers dateRange calendarEvents options tick =
     (let roundList = groupSessionsIntoRounds sessions
      in findRoundSlots roundList now (length roundList) 0 [] (fst dateRange) (snd dateRange)
           allInterviewers calendarEvents options ([], tick))"

section \<open>The scheduling engine (core/SchedulingEngine)\<close>

record SchedulingEngineConfig =
  config_timezone :: string
  config_defaultOptions :: "SchedulingOptions option"

record SchedulingEngine =
  engine_timezone :: string
  defaultOptions :: SchedulingOptions
  calendarCache :: "string \<Rightarrow> CalendarEvent list option"

text \<open>
  The constructor: \<open>this.config = { defaultOptions: {...}, ...config }\<close>. A
  \<open>defaultOptions\<close> object in \<open>config\<close> replaces the built-in one as a whole.
\<close>

definition builtinDefaultOptions :: SchedulingOptions where
  "builtinDefaultOptions =
     \<lparr>respectWorkHours = Some True, respectHolidays = Some True, respectDayOffs = Some True,
      respectDailyLimits = Some True, respectWeeklyLimits = Some True,
      checkCalendarConflicts = Some True, excludeRecruitingBlocks = Some True,
      balanceLoad = Some True, maxResults = Some 100,
      includeTrainingInterviewers = Some False\<rparr>"

definition newSchedulingEngine :: "SchedulingEngineConfig \<Rightarrow> SchedulingEngine" where
  "newSchedulingEngine config =
     \<lparr>engine_timezone = config_timezone config,
      defaultOptions = (case config_defaultOptions config of
                          None \<Rightarrow> builtinDefaultOptions | Some d \<Rightarrow> d),
      calendarCache = Map.empty\<rparr>"

text \<open>
  \<open>FindSlotsOptions\<close>. A date of the range is \<open>None\<close> when the string is missing or
  empty (falsy); otherwise it is the date the string denotes.
\<close>

record FindSlotsOptions =
  find_sessions :: "InterviewSession list"
  find_interviewers :: "Interviewer list"
  dateRange_start :: "int option"
  dateRange_end :: "int option"
  candidateTimezone :: string
  find_options :: "SchedulingOptions option"

text \<open>The spread \<open>{ ...defaults, ...overrides }\<close>, field by field.\<close>

definition spreadField :: "'a option \<Rightarrow> 'a option \<Rightarrow> 'a option" where
  "spreadField dflt override = (case override of None \<Rightarrow> dflt | Some v \<Rightarrow> Some v)"

definition mergeOptions :: "SchedulingOptions \<Rightarrow> SchedulingOptions option \<Rightarrow> SchedulingOptions" where
  "mergeOptions d overrides =
     (case overrides of
        None \<Rightarrow> d
      | Some ov \<Rightarrow>
          \<lparr>respectWorkHours = spreadField (respectWorkHours d) (respectWorkHours ov),
           respectHolidays = spreadField (respectHolidays d) (respectHolidays ov),
           respectDayOffs = spreadField (respectDayOffs d) (respectDayOffs ov),
           respectDailyLimits = spreadField (respectDailyLimits d) (respectDailyLimits ov),
           respectWeeklyLimits = spreadField (respectWeeklyLimits d) (respectWeeklyLimits ov),
           checkCalendarConflicts = spreadField (checkCalendarConflicts d) (checkCalendarConflicts ov),
           excludeRecruitingBlocks = spreadField (excludeRecruitingBlocks d) (excludeRecruitingBlocks ov),
           balanceLoad = spreadField (balanceLoad d) (balanceLoad ov),
           maxResults = spreadField (maxResults d) (maxResults ov),
           includeTrainingInterviewers =
             spreadField (includeTrainingInterviewers d) (includeTrainingInterviewers ov)\<rparr>)"

definition needsMultiDayScheduling :: "InterviewSession list \<Rightarrow> bool" where
  "needsMultiDayScheduling sessions =
     list_ex (\<lambda>session. breakAfter session \<ge> MINUTES_IN_DAY) sessions"

text \<open>
  \<open>fetchCalendarEvents\<close>: the events of each interviewer come from the cache (keyed by
  email); a missing entry is filled with the empty list. The result is the map from
  interviewer id to events, and the cache.
\<close>

definition fetchCalendarEvents ::
  "(string \<Rightarrow> CalendarEvent list option) \<Rightarrow> Interviewer list
   \<Rightarrow> calendar \<times> (string \<Rightarrow> CalendarEvent list option)" where
  "fetchCalendarEvents cache allInterviewers =
     foldl (\<lambda>(eventsMap, cache') interviewer.
              (case cache' (interviewer_email interviewer) of
                 Some events \<Rightarrow> (eventsMap(interviewer_id interviewer \<mapsto> events), cache')
               | None \<Rightarrow> (eventsMap(interviewer_id interviewer \<mapsto> []),
                           cache'(interviewer_email interviewer \<mapsto> []))))
       (Map.empty, cache) allInterviewers"

datatype SearchResult = Combinations "SessionCombination list" | Plans "MultiDayPlan list"

text \<open>\<open>array.slice(0, end)\<close>: an omitted end keeps the array, a negative end counts from
  the end of the array.\<close>

definition sliceTo :: "'a list \<Rightarrow> int option \<Rightarrow> 'a list" where
  "sliceTo xs end =
     (case end of
        None \<Rightarrow> xs
      | Some n \<Rightarrow> if n \<ge> 0 then take (nat n) xs else take (nat (int (length xs) + n)) xs)"

text \<open>The \<open>catch\<close> clause: a \<open>SchedulingError\<close> (or a subclass) is thrown again, any other
  error is wrapped in a \<open>SchedulingError\<close>.\<close>

definition rethrow :: "error \<Rightarrow> error" where
  "rethrow e = (case e of TypeError \<Rightarrow> SchedulingError ''Failed to find slots'' | _ \<Rightarrow> e)"

text \<open>
  The single-day branch of \<open>findSlots\<close> uses two imports that are not part of the repository.

  \<^item> \<open>zonedTimeToUtc(date, timeZone)\<close> of date-fns-tz: the instant at which the date begins
    in the time zone. The function is a parameter of the model; it is \<open>None\<close> when the
    installed package exports no function of this name, which is the case of the declared
    dependency (date-fns-tz 3 renamed it \<open>fromZonedTime\<close>): the call of the undefined
    import then raises a \<open>TypeError\<close>.
  \<^item> \<open>format(currentDate, 'yyyy-MM-dd')\<close> of date-fns: the date of an instant in the time
    zone of the process (UTC).
\<close>

type_synonym zonedTimeToUtc = "(int \<Rightarrow> string \<Rightarrow> int) option"

definition formatDate :: "int \<Rightarrow> int" where
  "formatDate instant = dateOf instant"

text \<open>
  The loop \<open>while (isBefore(currentDate, endDate) || isEqual(currentDate, endDate))\<close> of
  \<open>findSlots\<close> over instants, one day apart (\<open>addDays(currentDate, 1)\<close>), with the test on
  \<open>maxResults\<close> after each day.
\<close>

function instantLoop ::
  "(int \<Rightarrow> 'r search_state \<Rightarrow> error + 'r search_state) \<Rightarrow> SchedulingOptions
   \<Rightarrow> int \<Rightarrow> int \<Rightarrow> 'r search_state \<Rightarrow> error + 'r search_state" where
  "instantLoop body options currentDate endDate st =
     (if currentDate \<le> endDate
      then (case body currentDate st of
              Inl e \<Rightarrow> Inl e
            | Inr st' \<Rightarrow>
                if maxReached options (fst st') then Inr st'
                else instantLoop body options (currentDate + MINUTES_IN_DAY) endDate st')
      else Inr st)"
  by pat_completeness auto
termination
  by (relation "measure (\<lambda>(body, options, currentDate, endDate, st).
                   nat (endDate + MINUTES_IN_DAY - currentDate))")
     (auto simp: MINUTES_IN_DAY_def)

declare instantLoop.simps [simp del]

text \<open>The body of that loop: the search of the day of the instant, appended to \<open>allSlots\<close>.\<close>

definition singleDayStep ::
  "clock \<Rightarrow> InterviewSession list \<Rightarrow> Interviewer list \<Rightarrow> calendar \<Rightarrow> SchedulingOptions
   \<Rightarrow> int \<Rightarrow> SessionCombination search_state \<Rightarrow> error + SessionCombination search_state" where
  "singleDayStep now sessions allInterviewers calendarEvents mergedOptions currentDate st =
     (let dateStr = formatDate currentDate
      in case findSlotsForDay now sessions allInterviewers dateStr calendarEvents mergedOptions
                (snd st) of
           Inl e \<Rightarrow> Inl e
         | Inr day \<Rightarrow> Inr (fst st @ fst day, snd day))"

text \<open>
  \<open>findSlots\<close>. The result is the outcome (an error or the result list), the engine with
  its cache, and the number of clock readings made. The three checks come first; the
  calendar events are fetched before the branch on multi-day scheduling. The multi-day
  branch passes the dates of the range on as they are; the single-day branch converts
  them with \<open>zonedTimeToUtc\<close> in the engine's time zone. Every error that is not a
  \<open>SchedulingError\<close> is caught and raised again as one.
\<close>

definition findSlots ::
  "zonedTimeToUtc \<Rightarrow> clock \<Rightarrow> SchedulingEngine \<Rightarrow> FindSlotsOptions \<Rightarrow> nat
   \<Rightarrow> (error + SearchResult) \<times> SchedulingEngine \<times> nat" where
  "findSlots zonedTimeToUtc now engine opts tick =
     (if find_sessions opts = []
      then (Inl (ValidationError ''At least one session is required.''), engine, tick)
      else if find_interviewers opts = []
      then (Inl (ValidationError ''At least one interviewer is required.''), engine, tick)
      else (case (dateRange_start opts, dateRange_end opts) of
              (Some start, Some end) \<Rightarrow>
                (let mergedOptions = mergeOptions (defaultOptions engine) (find_options opts);
                     needsMultiDay = needsMultiDayScheduling (find_sessions opts);
                     fetched = fetchCalendarEvents (calendarCache engine) (find_interviewers opts);
                     calendarEvents = fst fetched;
                     engine' = engine\<lparr>calendarCache := snd fetched\<rparr>
                 in if needsMultiDay
                    then (case findMultiDaySlots now (find_sessions opts) (find_interviewers opts)
                                 (start, end) calendarEvents mergedOptions tick of
                            Inl e \<Rightarrow> (Inl (rethrow e), engine', tick)
                          | Inr st \<Rightarrow> (Inr (Plans (fst st)), engine', snd st))
                    else (case zonedTimeToUtc of
                            None \<Rightarrow> (Inl (rethrow TypeError), engine', tick)
                          | Some toUtc \<Rightarrow>
                              (let currentDate = toUtc start (engine_timezone engine);
                                   endDate = toUtc end (engine_timezone engine)
                               in case instantLoop
                                         (singleDayStep now (find_sessions opts)
                                            (find_interviewers opts) calendarEvents mergedOptions)
                                         mergedOptions currentDate endDate ([], tick) of
                                    Inl e \<Rightarrow> (Inl (rethrow e), engine', tick)
                                  | Inr st \<Rightarrow>
                                      (Inr (Combinations
                                              (sliceTo (fst st) (maxResults mergedOptions))),
                                       engine', snd st))))
            | _ \<Rightarrow>
                (Inl (ValidationError ''A date range with a start and end is required.''),
                 engine, tick)))"

section \<open>Notions used to state the properties\<close>






text \<open>Two placed slots overlap in time when neither ends before the other starts.\<close>

definition windowsOverlap :: "InterviewSlot \<Rightarrow> InterviewSlot \<Rightarrow> bool" where
  "windowsOverlap a b = (\<not> (slot_endTime a \<le> slot_startTime b \<or> slot_startTime a \<ge> slot_endTime b))"

text \<open>The window of a placed slot.\<close>

definition window :: "InterviewSlot \<Rightarrow> int \<times> int" where
  "window slot = (slot_startTime slot, slot_endTime slot)"

text \<open>
  The windows that the single-day search gives to a list of sessions, one after the
  other: \<open>previousEnd\<close> is the end of the window placed before them, \<open>None\<close> at the start
  of the day.
\<close>

fun sessionTimes :: "int option \<Rightarrow> int \<Rightarrow> InterviewSession list \<Rightarrow> (int \<times> int) list" where
  "sessionTimes previousEnd date [] = []"
| "sessionTimes previousEnd date (session # rest) =
     (let start = (case previousEnd of
                     None \<Rightarrow> date * 1440 + DEFAULT_APPOINTMENT_START_TIME
                   | Some e \<Rightarrow> e + breakAfter session)
      in (start, start + duration session)
         # sessionTimes (Some (start + duration session)) date rest)"

text \<open>The start time of the first round of a plan, when the plan has a round.\<close>

definition firstRoundStart :: "MultiDayPlan \<Rightarrow> int option" where
  "firstRoundStart plan =
     (case plan_rounds plan of
        [] \<Rightarrow> None
      | r # _ \<Rightarrow> Some (combination_startTime (combination r)))"

text \<open>The mean of the density values of all the rounds of a plan.\<close>

definition planMeanDensity :: "MultiDayPlan \<Rightarrow> real" where
  "planMeanDensity plan =
     getAverageLoadDensity (concat (map (\<lambda>r. loadDensity (combination r)) (plan_rounds plan)))"

text \<open>
  A result with the clock readings taken out of its generated identifiers, and the
  outcome of a search (an error, or the result list) likewise.
\<close>

fun eraseStamp :: "Ident \<Rightarrow> Ident" where
  "eraseStamp (SlotId s t) = SlotId s 0"
| "eraseStamp (ComboId ss t) = ComboId ss 0"
| "eraseStamp (PlanId ds t) = PlanId ds 0"

definition eraseSlot :: "InterviewSlot \<Rightarrow> InterviewSlot" where
  "eraseSlot slot = slot\<lparr>slot_id := eraseStamp (slot_id slot)\<rparr>"

definition eraseCombination :: "SessionCombination \<Rightarrow> SessionCombination" where
  "eraseCombination c =
     c\<lparr>combination_id := eraseStamp (combination_id c),
       combination_slots := map eraseSlot (combination_slots c)\<rparr>"

definition eraseRound :: "RoundPlan \<Rightarrow> RoundPlan" where
  "eraseRound r = r\<lparr>combination := eraseCombination (combination r)\<rparr>"

definition erasePlan :: "MultiDayPlan \<Rightarrow> MultiDayPlan" where
  "erasePlan plan =
     plan\<lparr>plan_id := eraseStamp (plan_id plan), plan_rounds := map eraseRound (plan_rounds plan)\<rparr>"

definition eraseResult :: "SearchResult \<Rightarrow> SearchResult" where
  "eraseResult r =
     (case r of
        Combinations cs \<Rightarrow> Combinations (map eraseCombination cs)
      | Plans ps \<Rightarrow> Plans (map erasePlan ps))"

definition outcome :: "('r \<Rightarrow> 'r) \<Rightarrow> error + 'r search_state \<Rightarrow> error + 'r list" where
  "outcome erase res = (case res of Inl e \<Rightarrow> Inl e | Inr st \<Rightarrow> Inr (map erase (fst st)))"

section \<open>Example inputs\<close>

text \<open>
  The fixtures of the test suite: an interviewer with a daily limit of 3 and a weekly limit
  of 10 interviews, here working 09:00 to 17:00 from Monday to Friday; a session that
  requires one interviewer; the options object \<open>{}\<close>; the calendar \<open>new Map()\<close>. Day 19758
  is Monday 2024-02-05.
\<close>

definition exampleInterviewer :: "string \<Rightarrow> Interviewer" where
  "exampleInterviewer name =
     \<lparr>interviewer_id = name, interviewer_name = name, interviewer_email = name,
      workHours = (\<lambda>d. if d = saturday \<or> d = sunday then None
                         else Some \<lparr>range_startTime = (9, 0), range_endTime = (17, 0)\<rparr>),
      limits_daily = \<lparr>limit_type = count, limit_max = 3\<rparr>,
      limits_weekly = \<lparr>limit_type = count, limit_max = 10\<rparr>,
      holidays = None, dayOffs = None, blockedTimes = None, isTraining = None\<rparr>"

definition exampleSession :: "string \<Rightarrow> int \<Rightarrow> int \<Rightarrow> int \<Rightarrow> InterviewSession" where
  "exampleSession name minutes break ord =
     \<lparr>session_id = name, session_name = name, duration = minutes, breakAfter = break,
      requiredInterviewers = 1, session_order = ord, session_meetingType = None,
      session_location = None, interviewerPool = None\<rparr>"

definition emptyOptions :: SchedulingOptions where
  "emptyOptions =
     \<lparr>respectWorkHours = None, respectHolidays = None, respectDayOffs = None,
      respectDailyLimits = None, respectWeeklyLimits = None,
      checkCalendarConflicts = None, excludeRecruitingBlocks = None,
      balanceLoad = None, maxResults = None,
      includeTrainingInterviewers = None\<rparr>"

definition noEvents :: calendar where
  "noEvents = (\<lambda>k. None)"

named_theorems evals \<open>the equations that evaluate the engine on a concrete input\<close>

declare
  findSlotsForDay_def [evals] generateAllSlotCombinations_def [evals]
  generateInterviewerCombinations_def [evals] sessionCombos_def [evals]
  generateCombinationsWithTraining_def [evals]
  generateCombinations.simps [evals] createAndCheckSlot_def [evals] createSlot_def [evals]
  checkSlotConflicts_def [evals] interviewerConflicts_def [evals]
  isInterviewerAvailable_def [evals] checkWorkHours_def [evals] checkHolidays_def [evals]
  checkDayOffs_def [evals] checkBlockedTimes_def [evals] pushConflict_def [evals]
  truthy_def [evals] notFalse_def [evals] maxReached_def [evals]
  calculateSessionStartTime_def [evals] addMinutesToTime_def [evals]
  calculateTotalDuration_def [evals] calculateLoadDensity_def [evals] assignedIds_def [evals]
  getAverageLoadDensity_def [evals] rankKey_def [evals] generateSlotCombinationId_def [evals]
  getDayOfWeek_def [evals] dateOf_def [evals] minutesOfDay_def [evals]
  DEFAULT_APPOINTMENT_START_TIME_def [evals] MINUTES_IN_DAY_def [evals]
  calculateInterviewerLoad_def [evals] calculateDailyLoad_def [evals]
  calculateWeeklyLoad_def [evals] loadOf_def [evals] calculateSlotDuration_def [evals]
  jsDivide_def [evals] eventChunk_def [evals] slotChunk_def [evals] isTimeOverlap_def [evals]
  getTotalDuration_def [evals] mergeTimeChunks_def [evals]
  findMultiDaySlots_def [evals] groupSessionsIntoRounds_def [evals] findSlotsForRound_def [evals]
  searchStart_def [evals] addDays_def [evals] gapDaysOf_def [evals] dateLoop.simps [evals]
  hasInterviewerConflictWithPreviousRounds_def [evals] extractAllInterviewers_def [evals]
  generatePlanId_def [evals]
  exampleInterviewer_def [evals] exampleSession_def [evals] emptyOptions_def [evals]
  noEvents_def [evals] window_def [evals] Let_def [evals]

section \<open>Invariant rules for the loops of the search\<close>

lemma tryCombinations_rule:
  assumes I0: "I st"
    and tick: "\<And>s. I s \<Longrightarrow> I (fst s, Suc (snd s))"
    and step: "\<And>combo slot s. combo \<in> set combos \<Longrightarrow> I s \<Longrightarrow>
        createAndCheckSlot session combo start calendarEvents options (now (snd s)) = Some slot \<Longrightarrow>
        (case recurse slot (fst s, Suc (snd s)) of Inl e \<Rightarrow> E e | Inr s' \<Rightarrow> I s')"
  shows "case tryCombinations recurse now session start calendarEvents options combos st of
           Inl e \<Rightarrow> E e | Inr s' \<Rightarrow> I s'"
  using I0 step
proof (induction combos arbitrary: st)
  case Nil
  then show ?case by simp
next
  case (Cons combo rest)
  show ?case
  proof (cases "createAndCheckSlot session combo start calendarEvents options (now (snd st))")
    case None
    have i: "I (fst st, Suc (snd st))" using Cons.prems(1) tick by blast
    have "case tryCombinations recurse now session start calendarEvents options rest
                 (fst st, Suc (snd st)) of Inl e \<Rightarrow> E e | Inr s' \<Rightarrow> I s'"
      by (rule Cons.IH[OF i]) (rule Cons.prems(2), auto)
    then show ?thesis using None by simp
  next
    case (Some slot)
    have r: "case recurse slot (fst st, Suc (snd st)) of Inl e \<Rightarrow> E e | Inr s' \<Rightarrow> I s'"
      using Cons.prems(2)[of combo st slot] Cons.prems(1) Some by simp
    show ?thesis
    proof (cases "recurse slot (fst st, Suc (snd st))")
      case (Inl e)
      then show ?thesis using Some r by simp
    next
      case (Inr s')
      then have i: "I s'" using r by simp
      have "case tryCombinations recurse now session start calendarEvents options rest s' of
              Inl e \<Rightarrow> E e | Inr s'' \<Rightarrow> I s''"
        by (rule Cons.IH[OF i]) (rule Cons.prems(2), auto)
      then show ?thesis using Some Inr i by simp
    qed
  qed
qed

lemma tryDaySlots_rule:
  assumes I0: "I st"
    and step: "\<And>slotCombo s. slotCombo \<in> set daySlots \<Longrightarrow> I s \<Longrightarrow>
        \<not> hasInterviewerConflictWithPreviousRounds slotCombo previousRounds \<Longrightarrow>
        (case recurse \<lparr>roundNumber = currentRoundIndex, round_date = currentDate,
                        combination = slotCombo, round_sessions = currentRoundSessions\<rparr> s of
           Inl e \<Rightarrow> E e | Inr s' \<Rightarrow> I s')"
  shows "case tryDaySlots recurse options previousRounds currentRoundIndex currentDate
                currentRoundSessions daySlots st of
           Inl e \<Rightarrow> E e | Inr s' \<Rightarrow> I s'"
  using I0 step
proof (induction daySlots arbitrary: st)
  case Nil
  then show ?case by simp
next
  case (Cons slotCombo rest)
  show ?case
  proof (cases "hasInterviewerConflictWithPreviousRounds slotCombo previousRounds")
    case True
    have "case tryDaySlots recurse options previousRounds currentRoundIndex currentDate
                 currentRoundSessions rest st of Inl e \<Rightarrow> E e | Inr s' \<Rightarrow> I s'"
      by (rule Cons.IH[OF Cons.prems(1)]) (rule Cons.prems(2), auto)
    then show ?thesis using True by simp
  next
    case False
    let ?rp = "\<lparr>roundNumber = currentRoundIndex, round_date = currentDate,
                 combination = slotCombo, round_sessions = currentRoundSessions\<rparr>"
    have r: "case recurse ?rp st of Inl e \<Rightarrow> E e | Inr s' \<Rightarrow> I s'"
      using Cons.prems(2)[of slotCombo st] Cons.prems(1) False by simp
    show ?thesis
    proof (cases "recurse ?rp st")
      case (Inl e)
      then show ?thesis using False r by simp
    next
      case (Inr s')
      then have i: "I s'" using r by simp
      have "case tryDaySlots recurse options previousRounds currentRoundIndex currentDate
                   currentRoundSessions rest s' of Inl e \<Rightarrow> E e | Inr s'' \<Rightarrow> I s''"
        by (rule Cons.IH[OF i]) (rule Cons.prems(2), auto)
      then show ?thesis using False Inr i by simp
    qed
  qed
qed

lemma dateLoop_rule:
  assumes I0: "I currentDate st"
    and step: "\<And>d s. currentDate \<le> d \<Longrightarrow> d \<le> end \<Longrightarrow> I d s \<Longrightarrow>
        (case body d s of Inl e \<Rightarrow> E e | Inr s' \<Rightarrow> I (d + 1) s')"
  shows "case dateLoop body options currentDate end st of
           Inl e \<Rightarrow> E e | Inr s' \<Rightarrow> \<exists>d. I d s'"
  using I0 step
proof (induction body options currentDate "end" st rule: dateLoop.induct)
  case (1 body options currentDate "end" st)
  show ?case
  proof (cases "currentDate \<le> end")
    case False
    then show ?thesis using "1.prems"(1) by (subst dateLoop.simps) auto
  next
    case True
    have r: "case body currentDate st of Inl e \<Rightarrow> E e | Inr s' \<Rightarrow> I (currentDate + 1) s'"
      using "1.prems"(2)[of currentDate st] True "1.prems"(1) by simp
    show ?thesis
    proof (cases "body currentDate st")
      case (Inl e)
      then show ?thesis using True r by (subst dateLoop.simps) simp
    next
      case (Inr s')
      then have i: "I (currentDate + 1) s'" using r by simp
      show ?thesis
      proof (cases "maxReached options (fst s')")
        case mr: True
        then show ?thesis using True Inr i by (subst dateLoop.simps) auto
      next
        case mr: False
        have "case dateLoop body options (currentDate + 1) end s' of
                Inl e \<Rightarrow> E e | Inr s'' \<Rightarrow> \<exists>d. I d s''"
          by (rule "1.IH"[OF True Inr mr i]) (rule "1.prems"(2), auto)
        then show ?thesis using True Inr mr by (subst dateLoop.simps) simp
      qed
    qed
  qed
qed

section \<open>Combination generation: all subsets of the required size, in pool order\<close>


lemma gc_zero: "generateCombinations arr 0 = [[]]"
  by (simp add: generateCombinations.simps)

lemma gc_Nil: "k \<noteq> 0 \<Longrightarrow> generateCombinations [] k = []"
  by (simp add: generateCombinations.simps)

lemma gc_Cons:
  "k \<noteq> 0 \<Longrightarrow> generateCombinations (x # xs) k =
     (if k > 1 + int (length xs) then []
      else map (\<lambda>combo. x # combo) (generateCombinations xs (k - 1)) @ generateCombinations xs k)"
  by (subst generateCombinations.simps) simp

lemma gc_too_many: "k > int (length arr) \<Longrightarrow> generateCombinations arr k = []"
  by (cases arr) (auto simp: gc_Nil gc_Cons)

lemma gc_negative: "k < 0 \<Longrightarrow> generateCombinations arr k = []"
  by (induction arr arbitrary: k) (auto simp: gc_Nil gc_Cons)

lemma gc_subseqs:
  "0 \<le> k \<Longrightarrow> generateCombinations arr k = filter (\<lambda>c. int (length c) = k) (subseqs arr)"
proof (induction arr arbitrary: k)
  case Nil
  then show ?case by (cases "k = 0") (auto simp: gc_zero gc_Nil)
next
  case (Cons x xs)
  show ?case
  proof (cases "k = 0")
    case True
    have "filter (\<lambda>c. length c = 0) (subseqs ys) = [[]]" for ys :: "'a list"
      by (induction ys) (auto simp: Let_def filter_map comp_def)
    then show ?thesis using True by (simp add: gc_zero Let_def filter_map comp_def)
  next
    case False
    with Cons.prems have k: "0 \<le> k - 1" "0 \<le> k" by auto
    have len: "c \<in> set (subseqs ys) \<Longrightarrow> length c \<le> length ys" for c ys :: "'a list"
      by (auto dest: list_emb_length)
    show ?thesis
    proof (cases "k > 1 + int (length xs)")
      case True
      have "filter (\<lambda>c. int (length c) = k) (subseqs (x # xs)) = []"
        using True by (auto simp: Let_def filter_empty_conv dest!: len)
      then show ?thesis using True False by (simp add: gc_Cons)
    next
      case F2: False
      have eq: "(\<lambda>c::'a list. 1 + int (length c) = k) = (\<lambda>c. int (length c) = k - 1)"
        by (rule ext) auto
      show ?thesis using False F2 Cons.IH[OF k(1)] Cons.IH[OF k(2)]
        by (simp add: gc_Cons Let_def filter_map comp_def eq)
    qed
  qed
qed


lemma gc_length:
  "0 \<le> k \<Longrightarrow> length (generateCombinations arr k) = length arr choose nat k"
proof (induction arr arbitrary: k)
  case Nil
  then show ?case by (cases "k = 0") (auto simp: gc_zero gc_Nil)
next
  case (Cons x xs)
  show ?case
  proof (cases "k = 0")
    case True then show ?thesis by (simp add: gc_zero)
  next
    case False
    with Cons.prems have "0 < k" by simp
    then obtain m where "nat k = Suc m" by (cases "nat k") auto
    with \<open>0 < k\<close> have m: "nat k = Suc m" "k - 1 = int m" "k = int (Suc m)" by auto
    show ?thesis using False m Cons.IH[of "k - 1"] Cons.IH[of k] Cons.prems
      by (simp add: gc_Cons binomial_eq_0)
  qed
qed

lemma gc_member:
  "c \<in> set (generateCombinations arr k) \<Longrightarrow> int (length c) = k \<and> subseq c arr"
proof (induction arr arbitrary: k c)
  case Nil
  then show ?case by (cases "k = 0") (auto simp: gc_zero gc_Nil)
next
  case (Cons x xs)
  show ?case
  proof (cases "k = 0")
    case True with Cons.prems show ?thesis by (simp add: gc_zero)
  next
    case False
    with Cons.prems Cons.IH[of _ "k - 1"] Cons.IH[of c k] show ?thesis
      by (auto simp: gc_Cons split: if_splits)
  qed
qed


lemma gc_distinct_sets:
  assumes "distinct arr"
  shows "distinct (map set (generateCombinations arr k))"
proof (cases "0 \<le> k")
  case True
  then show ?thesis
    using distinct_set_subseqs[OF assms] by (simp add: gc_subseqs distinct_map_filter)
next
  case False
  then show ?thesis by (simp add: gc_negative)
qed

lemma lexLess_map_Suc: "lexLess (map Suc as) (map Suc bs) = lexLess as bs"
  by (induction as bs rule: lexLess.induct) auto

lemma lexLess_map_Suc_comp:
  "lexLess (map (Suc \<circ> f) as) (map (Suc \<circ> f) bs) = lexLess (map f as) (map f bs)"
  using lexLess_map_Suc[of "map f as" "map f bs"] by simp

lemma poolIndex_Cons_notin:
  "x \<notin> set c \<Longrightarrow> map (poolIndex (x # xs)) c = map (Suc \<circ> poolIndex xs) c"
  by (induction c) auto

lemma gc_notin: "c \<in> set (generateCombinations xs k) \<Longrightarrow> x \<notin> set xs \<Longrightarrow> x \<notin> set c"
  using gc_member[of c xs k] by (auto dest: list_emb_set)

lemma gc_lex_sorted:
  "distinct arr \<Longrightarrow>
   sorted_wrt (\<lambda>a b. lexLess (map (poolIndex arr) a) (map (poolIndex arr) b))
     (generateCombinations arr k)"
proof (induction arr arbitrary: k)
  case Nil
  then show ?case by (cases "k = 0") (auto simp: gc_zero gc_Nil)
next
  case (Cons x xs)
  show ?case
  proof (cases "k = 0")
    case True then show ?thesis by (simp add: gc_zero)
  next
    case False
    from Cons.prems have d: "distinct xs" and nx: "x \<notin> set xs" by auto
    let ?R = "\<lambda>a b. lexLess (map (poolIndex (x # xs)) a) (map (poolIndex (x # xs)) b)"
    let ?R' = "\<lambda>a b. lexLess (map (poolIndex xs) a) (map (poolIndex xs) b)"
    have same: "?R a b = ?R' a b"
      if "a \<in> set (generateCombinations xs i)" "b \<in> set (generateCombinations xs j)" for a b i j
      using that gc_notin[OF _ nx] by (simp add: poolIndex_Cons_notin lexLess_map_Suc_comp)
    have s2: "sorted_wrt ?R (generateCombinations xs k)"
      by (rule sorted_wrt_mono_rel[OF _ Cons.IH[OF d, of k]]) (simp add: same)
    have s1: "sorted_wrt ?R (map (\<lambda>combo. x # combo) (generateCombinations xs (k - 1)))"
      unfolding sorted_wrt_map
      by (rule sorted_wrt_mono_rel[OF _ Cons.IH[OF d, of "k - 1"]])
         (use gc_notin[OF _ nx] in \<open>simp add: poolIndex_Cons_notin lexLess_map_Suc_comp\<close>)
    have cross: "?R (x # a) b"
      if "a \<in> set (generateCombinations xs (k - 1))" "b \<in> set (generateCombinations xs k)" for a b
    proof -
      from that(2) False have "b \<noteq> []" using gc_member[of b xs k] by auto
      then obtain y b' where b: "b = y # b'" by (cases b) auto
      with that(2) gc_notin[OF that(2) nx] have "y \<noteq> x" by auto
      then show ?thesis by (simp add: b)
    qed
    show ?thesis using False s1 s2 cross
      by (auto simp: gc_Cons sorted_wrt_append simp del: poolIndex.simps)
  qed
qed

lemma gc_map:
  "generateCombinations (map f xs) k = map (map f) (generateCombinations xs k)"
proof (induction xs arbitrary: k)
  case Nil
  then show ?case by (cases "k = 0") (auto simp: gc_zero gc_Nil)
next
  case (Cons x xs)
  show ?case
  proof (cases "k = 0")
    case True then show ?thesis by (simp add: gc_zero)
  next
    case False
    then show ?thesis using Cons.IH[of "k - 1"] Cons.IH[of k] by (simp add: gc_Cons comp_def)
  qed
qed

lemma gc_positions:
  "generateCombinations pool k
     = map (map ((!) pool)) (generateCombinations [0..<length pool] k)"
  using gc_map[of "(!) pool" "[0..<length pool]" k] by (simp add: map_nth)

lemma poolIndex_nth:
  "distinct xs \<Longrightarrow> i < length xs \<Longrightarrow> poolIndex xs (xs ! i) = i"
proof (induction xs arbitrary: i)
  case Nil
  then show ?case by simp
next
  case (Cons x xs)
  then show ?case by (cases i) auto
qed

lemma gc_positions_index:
  assumes "c \<in> set (generateCombinations [0..<n] k)"
  shows "map (poolIndex [0..<n]) c = c"
proof (rule map_idI)
  fix i
  assume i: "i \<in> set c"
  have "subseq c [0..<n]"
    using gc_member[OF assms] by (rule conjunct2)
  from list_emb_set[OF this i] have "i < n"
    by auto
  then have "[0..<n] ! i = i" "i < length [0..<n]"
    by simp_all
  then show "poolIndex [0..<n] i = i"
    using poolIndex_nth[of "[0..<n]" i] by (simp del: poolIndex.simps)
qed

lemma gc_positions_sorted: "sorted_wrt lexLess (generateCombinations [0..<n] k)"
proof (rule sorted_wrt_mono_rel[OF _ gc_lex_sorted[of "[0..<n]" k]])
  fix a b
  assume "a \<in> set (generateCombinations [0..<n] k)" "b \<in> set (generateCombinations [0..<n] k)"
    and "lexLess (map (poolIndex [0..<n]) a) (map (poolIndex [0..<n]) b)"
  then show "lexLess a b"
    using gc_positions_index[of a n k] gc_positions_index[of b n k] by simp
next
  show "distinct [0..<n]" by simp
qed

lemma subseq_sorted_wrt:
  "subseq xs ys \<Longrightarrow> sorted_wrt P ys \<Longrightarrow> sorted_wrt P xs"
proof (induction rule: list_emb.induct)
  case (list_emb_Nil ys)
  then show ?case by simp
next
  case (list_emb_Cons xs ys y)
  then show ?case by simp
next
  case (list_emb_Cons2 x y xs ys)
  have "P x z" if "z \<in> set xs" for z
  proof -
    from list_emb_set[OF list_emb_Cons2.hyps(2) that] have "z \<in> set ys" by auto
    with list_emb_Cons2.prems list_emb_Cons2.hyps(1) show ?thesis by simp
  qed
  moreover have "sorted_wrt P xs"
    using list_emb_Cons2.IH list_emb_Cons2.prems by simp
  ultimately show ?case by simp
qed

lemma gc_positions_increasing:
  assumes "c \<in> set (generateCombinations [0..<n] k)"
  shows "sorted_wrt (<) c"
proof -
  have "subseq c [0..<n]" using gc_member[OF assms] by simp
  moreover have "sorted_wrt (<) [0..<n]" by simp
  ultimately show ?thesis by (rule subseq_sorted_wrt)
qed

text \<open>
  Claim C7, as the code has it. For a pool of \<open>n\<close> participants and a required count \<open>k\<close>
  with \<open>0 \<le> k \<le> n\<close>, \<open>generateCombinations\<close> returns exactly \<open>n choose k\<close> lists, each of
  \<open>k\<close> elements and a subsequence of the pool. The lists are the selections of the pool at
  the sets of \<open>k\<close> positions: the lists of positions are strictly increasing, pairwise
  different, and come in strictly increasing lexicographic order; the result is the list
  of the \<open>k\<close>-element members of the enumeration \<open>subseqs\<close> of the pool. When the pool has
  no repeated participant, no two returned lists have the same set of members, and the
  lists come in strictly increasing lexicographic order of their pool positions. For
  \<open>k = 0\<close> the result is the single empty subset, and for \<open>k > n\<close> it is empty.
\<close>

theorem generateCombinations_complete:
  "(0 \<le> k \<longrightarrow>
      generateCombinations pool k = filter (\<lambda>c. int (length c) = k) (subseqs pool))
   \<and> (0 \<le> k \<and> k \<le> int (length pool) \<longrightarrow>
      length (generateCombinations pool k) = length pool choose nat k)
   \<and> (\<forall>c \<in> set (generateCombinations pool k). int (length c) = k \<and> subseq c pool)
   \<and> generateCombinations pool k
       = map (map ((!) pool)) (generateCombinations [0..<length pool] k)
   \<and> (\<forall>c \<in> set (generateCombinations [0..<length pool] k). sorted_wrt (<) c)
   \<and> distinct (map set (generateCombinations [0..<length pool] k))
   \<and> sorted_wrt lexLess (generateCombinations [0..<length pool] k)
   \<and> (distinct pool \<longrightarrow> distinct (map set (generateCombinations pool k)))
   \<and> (distinct pool \<longrightarrow>
        sorted_wrt (\<lambda>a b. lexLess (map (poolIndex pool) a) (map (poolIndex pool) b))
          (generateCombinations pool k))
   \<and> generateCombinations pool 0 = [[]]
   \<and> (k > int (length pool) \<longrightarrow> generateCombinations pool k = [])"
proof -
  have c1: "0 \<le> k \<longrightarrow>
      generateCombinations pool k = filter (\<lambda>c. int (length c) = k) (subseqs pool)"
    by (simp add: gc_subseqs)
  have c2: "0 \<le> k \<and> k \<le> int (length pool) \<longrightarrow>
      length (generateCombinations pool k) = length pool choose nat k"
    by (simp add: gc_length)
  have c3: "\<forall>c \<in> set (generateCombinations pool k). int (length c) = k \<and> subseq c pool"
    using gc_member[of _ pool k] by blast
  have c4: "generateCombinations pool k
       = map (map ((!) pool)) (generateCombinations [0..<length pool] k)"
    by (rule gc_positions)
  have c5: "\<forall>c \<in> set (generateCombinations [0..<length pool] k). sorted_wrt (<) c"
    using gc_positions_increasing[of _ "length pool" k] by blast
  have c6: "distinct (map set (generateCombinations [0..<length pool] k))"
    by (rule gc_distinct_sets) simp
  have c7: "sorted_wrt lexLess (generateCombinations [0..<length pool] k)"
    by (rule gc_positions_sorted)
  have c8: "distinct pool \<longrightarrow> distinct (map set (generateCombinations pool k))"
    using gc_distinct_sets[of pool k] by blast
  have c9: "distinct pool \<longrightarrow>
        sorted_wrt (\<lambda>a b. lexLess (map (poolIndex pool) a) (map (poolIndex pool) b))
          (generateCombinations pool k)"
    using gc_lex_sorted[of pool k] by blast
  have c10: "generateCombinations pool 0 = [[]]"
    by (rule gc_zero)
  have c11: "k > int (length pool) \<longrightarrow> generateCombinations pool k = []"
    using gc_too_many[of pool k] by blast
  show ?thesis
    by (intro conjI) (rule c1 c2 c3 c4 c5 c6 c7 c8 c9 c10 c11)+
qed

theorem generateCombinations_complete_witness:
  "(0::int) \<le> 2 \<and> (2::int) \<le> int (length [1, 2, 3, 4::nat]) \<and> distinct [1, 2, 3, 4::nat]
   \<and> generateCombinations [1, 2, 3, 4::nat] 2 = [[1, 2], [1, 3], [1, 4], [2, 3], [2, 4], [3, 4]]
   \<and> generateCombinations [0..<length [1, 2, 3, 4::nat]] 2
       = [[0, 1], [0, 2], [0, 3], [1, 2], [1, 3], [2, 3]]
   \<and> filter (\<lambda>c. int (length c) = 2) (subseqs [1, 2, 3, 4::nat])
       = [[1, 2], [1, 3], [1, 4], [2, 3], [2, 4], [3, 4]]
   \<and> length (generateCombinations [1, 2, 3, 4::nat] 2) = 6
   \<and> list_all (\<lambda>c. int (length c) = 2 \<and> subseq c [1, 2, 3, 4])
         (generateCombinations [1, 2, 3, 4::nat] 2)
   \<and> list_all (sorted_wrt (<)) (generateCombinations [0..<length [1, 2, 3, 4::nat]] 2)
   \<and> sorted_wrt lexLess (generateCombinations [0..<length [1, 2, 3, 4::nat]] 2)
   \<and> distinct (map set (generateCombinations [1, 2, 3, 4::nat] 2))
   \<and> sorted_wrt (\<lambda>a b. lexLess (map (poolIndex [1, 2, 3, 4]) a) (map (poolIndex [1, 2, 3, 4]) b))
          (generateCombinations [1, 2, 3, 4::nat] 2)"
proof -
  note T = generateCombinations_complete[of 2 "[1, 2, 3, 4::nat]"]
  have h1: "(0::int) \<le> 2" and h2: "(2::int) \<le> int (length [1, 2, 3, 4::nat])"
    and h3: "distinct [1, 2, 3, 4::nat]"
    by simp_all
  have e: "generateCombinations [1, 2, 3, 4::nat] 2 = [[1, 2], [1, 3], [1, 4], [2, 3], [2, 4], [3, 4]]"
    by (simp add: gc_Cons gc_zero gc_Nil)
  have u: "[0..<length [1, 2, 3, 4::nat]] = [0, 1, 2, 3]"
    by (simp add: upt_conv_Cons)
  have p: "generateCombinations [0..<length [1, 2, 3, 4::nat]] 2
             = [[0, 1], [0, 2], [0, 3], [1, 2], [1, 3], [2, 3]]"
    unfolding u by (simp add: gc_Cons gc_zero gc_Nil)
  have f: "filter (\<lambda>c. int (length c) = 2) (subseqs [1, 2, 3, 4::nat])
             = [[1, 2], [1, 3], [1, 4], [2, 3], [2, 4], [3, 4]]"
    using T[THEN conjunct1, rule_format, OF h1] e by (rule subst)
  have c: "length [1, 2, 3, 4::nat] choose nat 2 = 6"
    by (simp add: choose_two)
  have l: "length (generateCombinations [1, 2, 3, 4::nat] 2) = 6"
    using T[THEN conjunct2, THEN conjunct1, rule_format, OF conjI[OF h1 h2]] c by (rule trans)
  have m: "list_all (\<lambda>c. int (length c) = 2 \<and> subseq c [1, 2, 3, 4])
             (generateCombinations [1, 2, 3, 4::nat] 2)"
    using T[THEN conjunct2, THEN conjunct2, THEN conjunct1] unfolding list_all_iff .
  have i: "list_all (sorted_wrt (<)) (generateCombinations [0..<length [1, 2, 3, 4::nat]] 2)"
    using T[THEN conjunct2, THEN conjunct2, THEN conjunct2, THEN conjunct2, THEN conjunct1]
    unfolding list_all_iff .
  have s: "sorted_wrt lexLess (generateCombinations [0..<length [1, 2, 3, 4::nat]] 2)"
    by (rule T[THEN conjunct2, THEN conjunct2, THEN conjunct2, THEN conjunct2, THEN conjunct2,
              THEN conjunct2, THEN conjunct1])
  have d: "distinct (map set (generateCombinations [1, 2, 3, 4::nat] 2))"
    by (rule T[THEN conjunct2, THEN conjunct2, THEN conjunct2, THEN conjunct2, THEN conjunct2,
              THEN conjunct2, THEN conjunct2, THEN conjunct1, rule_format, OF h3])
  have x: "sorted_wrt (\<lambda>a b. lexLess (map (poolIndex [1, 2, 3, 4]) a) (map (poolIndex [1, 2, 3, 4]) b))
             (generateCombinations [1, 2, 3, 4::nat] 2)"
    by (rule T[THEN conjunct2, THEN conjunct2, THEN conjunct2, THEN conjunct2, THEN conjunct2,
              THEN conjunct2, THEN conjunct2, THEN conjunct2, THEN conjunct1, rule_format, OF h3])
  show ?thesis
    by (intro conjI) (rule h1 h2 h3 e p f l m i s d x)+
qed

text \<open>
  The claim as stated fails on a pool that names a participant twice: of the pool
  \<open>[1, 1, 2]\<close> the code returns the pair \<open>[1, 2]\<close> twice, once for each position of \<open>1\<close>.
\<close>

theorem generateCombinations_duplicate_counterexample:
  "generateCombinations [1, 1, 2::nat] 2 = [[1, 1], [1, 2], [1, 2]]
   \<and> \<not> distinct (generateCombinations [1, 1, 2::nat] 2)"
  by (simp add: gc_Cons gc_zero gc_Nil)

section \<open>Interval classification\<close>






section \<open>Load categories and limits\<close>

text \<open>
  Claim C10, as the code has it. The category of a density \<open>d\<close> is \<open>low\<close> iff
  \<open>d < 0.7\<close>, \<open>medium\<close> iff \<open>0.7 \<le> d < 0.9\<close>, \<open>high\<close> iff \<open>0.9 \<le> d \<le> 1.0\<close> and
  \<open>over_limit\<close> iff \<open>d > 1.0\<close>: a density of exactly 1.0 is at the limit, not over it.
  When the options set both \<open>respectDailyLimits\<close> and \<open>respectWeeklyLimits\<close> (to true or
  to false), \<open>wouldExceedLoadLimits\<close> is true iff the daily density is above 1.0 and the
  daily flag is true, or the weekly density is above 1.0 and the weekly flag is true.
  Whatever the options, it is true only if one of the two densities is above 1.0.
\<close>

theorem load_category_thresholds:
  "(getLoadDensityCategory (Finite d) = low \<longleftrightarrow> d < 7 / 10)
   \<and> (getLoadDensityCategory (Finite d) = medium \<longleftrightarrow> 7 / 10 \<le> d \<and> d < 9 / 10)
   \<and> (getLoadDensityCategory (Finite d) = high \<longleftrightarrow> 9 / 10 \<le> d \<and> d \<le> 1)
   \<and> (getLoadDensityCategory (Finite d) = over_limit \<longleftrightarrow> d > 1)
   \<and> (respectDailyLimits options = Some dailyEnforced
        \<and> respectWeeklyLimits options = Some weeklyEnforced
        \<longrightarrow> (wouldExceedLoadLimits
               \<lparr>daily = \<lparr>current = c1, load_max = m1, density = Finite dd\<rparr>,
                weekly = \<lparr>current = c2, load_max = m2, density = Finite dw\<rparr>\<rparr> options
             \<longleftrightarrow> (dailyEnforced \<and> dd > 1) \<or> (weeklyEnforced \<and> dw > 1)))
   \<and> (wouldExceedLoadLimits
         \<lparr>daily = \<lparr>current = c1, load_max = m1, density = Finite dd\<rparr>,
          weekly = \<lparr>current = c2, load_max = m2, density = Finite dw\<rparr>\<rparr> options
        \<longrightarrow> dd > 1 \<or> dw > 1)"
  by (auto simp: getLoadDensityCategory_def wouldExceedLoadLimits_def truthy_def)

theorem load_category_thresholds_witness:
  "respectDailyLimits (emptyOptions\<lparr>respectDailyLimits := Some True,
                                     respectWeeklyLimits := Some False\<rparr>) = Some True
   \<and> respectWeeklyLimits (emptyOptions\<lparr>respectDailyLimits := Some True,
                                        respectWeeklyLimits := Some False\<rparr>) = Some False
   \<and> wouldExceedLoadLimits
        \<lparr>daily = \<lparr>current = 3, load_max = 2, density = Finite (3 / 2)\<rparr>,
         weekly = \<lparr>current = 3, load_max = 10, density = Finite (3 / 10)\<rparr>\<rparr>
        (emptyOptions\<lparr>respectDailyLimits := Some True, respectWeeklyLimits := Some False\<rparr>)
   \<and> getLoadDensityCategory (Finite (3 / 2)) = over_limit
   \<and> getLoadDensityCategory (Finite (3 / 10)) = low"
  using load_category_thresholds
    [of "3 / 2" "emptyOptions\<lparr>respectDailyLimits := Some True, respectWeeklyLimits := Some False\<rparr>"
        True False 3 2 "3 / 2" 3 10 "3 / 10"]
    load_category_thresholds
    [of "3 / 10" "emptyOptions\<lparr>respectDailyLimits := Some True, respectWeeklyLimits := Some False\<rparr>"
        True False 3 2 "3 / 2" 3 10 "3 / 10"]
  by (simp add: emptyOptions_def)

text \<open>
  The claim as stated puts \<open>d = 1.0\<close> in \<open>over_limit\<close>; the code answers \<open>high\<close> there.
\<close>

theorem load_category_counterexample:
  "\<not> (getLoadDensityCategory (Finite 1) = over_limit \<longleftrightarrow> (1::real) \<ge> 1)"
  by (simp add: getLoadDensityCategory_def)

section \<open>The single-day search: what an accepted combination looks like\<close>

lemma createAndCheckSlot_Some:
  "createAndCheckSlot session combo start calendarEvents options t = Some slot \<Longrightarrow>
     slot = createSlot session combo start t
     \<and> checkSlotConflicts slot combo calendarEvents options = []"
  by (auto simp: createAndCheckSlot_def Let_def split: if_splits)

lemma window_createSlot:
  "window (createSlot session combo start t) = (start, start + duration session)"
  by (simp add: window_def createSlot_def addMinutesToTime_def)

text \<open>What every combination pushed by the exploration from a given state looks like.\<close>

lemma explore_invariant:
  "case exploreSlotCombinations rest now sessionCombinations allInterviewers date calendarEvents
          options currentSlots st of
     Inl e \<Rightarrow> rest = [] \<and> currentSlots = []
   | Inr st' \<Rightarrow>
       \<exists>new. fst st' = fst st @ new \<and>
         (\<forall>c \<in> set new. \<exists>more.
            combination_slots c = currentSlots @ more
            \<and> map window more =
                sessionTimes (if currentSlots = [] then None
                              else Some (slot_endTime (last currentSlots))) date rest
            \<and> combination_startTime c = slot_startTime (hd (combination_slots c))
            \<and> combination_date c = date)"
proof (induction rest arbitrary: currentSlots st)
  case Nil
  show ?case by (cases currentSlots) auto
next
  case (Cons session rest)
  let ?G = "\<lambda>slots sessions c. \<exists>more.
            combination_slots c = slots @ more
            \<and> map window more =
                sessionTimes (if slots = [] then None
                              else Some (slot_endTime (last slots))) date sessions
            \<and> combination_startTime c = slot_startTime (hd (combination_slots c))
            \<and> combination_date c = date"
  let ?I = "\<lambda>s :: SessionCombination search_state. \<exists>new. fst s = fst st @ new \<and> (\<forall>c \<in> set new. ?G currentSlots (session # rest) c)"
  let ?start = "calculateSessionStartTime currentSlots session date"
  let ?combos = "case sessionCombinations (session_id session) of None \<Rightarrow> [] | Some cs \<Rightarrow> cs"
  let ?recurse = "\<lambda>slot st'. exploreSlotCombinations rest now sessionCombinations allInterviewers
                     date calendarEvents options (currentSlots @ [slot]) st'"
  have "case tryCombinations ?recurse now session ?start calendarEvents options ?combos st of
          Inl e \<Rightarrow> False | Inr s' \<Rightarrow> ?I s'"
  proof (rule tryCombinations_rule)
    show "?I st" by simp
  next
    fix s :: "SessionCombination search_state" assume "?I s" then show "?I (fst s, Suc (snd s))" by simp
  next
    fix combo slot and s :: "SessionCombination search_state"
    assume I: "?I s"
      and cr: "createAndCheckSlot session combo ?start calendarEvents options (now (snd s)) = Some slot"
    from createAndCheckSlot_Some[OF cr] have w: "window slot = (?start, ?start + duration session)"
      by (simp add: window_createSlot)
    have step: "?G currentSlots (session # rest) c" if g: "?G (currentSlots @ [slot]) rest c" for c
    proof -
      from g obtain more where m: "combination_slots c = (currentSlots @ [slot]) @ more"
        "map window more = sessionTimes (Some (slot_endTime slot)) date rest"
        "combination_startTime c = slot_startTime (hd (combination_slots c))"
        "combination_date c = date" by auto
      have e: "slot_endTime slot = ?start + duration session" "slot_startTime slot = ?start"
        using w by (auto simp: window_def)
      have "map window (slot # more) =
              sessionTimes (if currentSlots = [] then None
                            else Some (slot_endTime (last currentSlots))) date (session # rest)"
        using m(2) w e
        by (auto simp: calculateSessionStartTime_def addMinutesToTime_def Let_def)
      then show ?thesis using m by (intro exI[of _ "slot # more"]) simp
    qed
    show "case ?recurse slot (fst s, Suc (snd s)) of Inl e \<Rightarrow> False | Inr s' \<Rightarrow> ?I s'"
    proof (cases "?recurse slot (fst s, Suc (snd s))")
      case (Inl e)
      with Cons.IH[of "currentSlots @ [slot]" "(fst s, Suc (snd s))"] show ?thesis by simp
    next
      case (Inr s')
      have "\<exists>new. fst s' = fst (fst s, Suc (snd s)) @ new
              \<and> (\<forall>c \<in> set new. ?G (currentSlots @ [slot]) rest c)"
        using Cons.IH[of "currentSlots @ [slot]" "(fst s, Suc (snd s))"] unfolding Inr sum.case .
      then obtain new' where n': "fst s' = fst s @ new'"
        "\<forall>c \<in> set new'. ?G (currentSlots @ [slot]) rest c" by auto
      from I obtain new0 where n0: "fst s = fst st @ new0"
        "\<forall>c \<in> set new0. ?G currentSlots (session # rest) c" by blast
      have "fst s' = fst st @ (new0 @ new')" using n'(1) n0(1) by simp
      moreover have "\<forall>c \<in> set (new0 @ new'). ?G currentSlots (session # rest) c"
        using n0(2) n'(2) step unfolding set_append by blast
      ultimately have "?I s'" by blast
      then show ?thesis unfolding Inr sum.case .
    qed
  qed
  then show ?case
    by (cases "tryCombinations ?recurse now session ?start calendarEvents options ?combos st")
       (simp_all add: Let_def del: sessionTimes.simps)
qed

lemma findSlotsForDay_cases:
  "case findSlotsForDay now sessions allInterviewers date calendarEvents options tick of
     Inl e \<Rightarrow> sessions = []
   | Inr st \<Rightarrow>
       (\<forall>c \<in> set (fst st).
          map window (combination_slots c) = sessionTimes None date (sort_key session_order sessions)
          \<and> combination_startTime c = slot_startTime (hd (combination_slots c))
          \<and> combination_date c = date)"
proof -
  let ?sorted = "sort_key session_order sessions"
  let ?e = "exploreSlotCombinations ?sorted now
              (generateInterviewerCombinations ?sorted allInterviewers options)
              allInterviewers date calendarEvents options [] ([], tick)"
  note inv = explore_invariant[where rest = ?sorted and now = now
      and sessionCombinations = "generateInterviewerCombinations ?sorted allInterviewers options"
      and allInterviewers = allInterviewers and date = date and calendarEvents = calendarEvents
      and options = options and currentSlots = "[]" and st = "([], tick)"]
  show ?thesis
  proof (cases ?e)
    case (Inl e)
    with inv have "?sorted = []" by simp
    then have "sessions = []" by (metis length_sort length_0_conv)
    then show ?thesis using Inl
      by (simp add: findSlotsForDay_def generateAllSlotCombinations_def Let_def)
  next
    case (Inr st)
    with inv show ?thesis
      by (auto simp: findSlotsForDay_def generateAllSlotCombinations_def Let_def
               simp del: sessionTimes.simps)
  qed
qed

lemma findSlotsForDay_no_error:
  "sessions \<noteq> [] \<Longrightarrow>
   \<exists>st. findSlotsForDay now sessions allInterviewers date calendarEvents options tick = Inr st"
  using findSlotsForDay_cases[where now = now and sessions = sessions
      and allInterviewers = allInterviewers and date = date and calendarEvents = calendarEvents
      and options = options and tick = tick]
  by (cases "findSlotsForDay now sessions allInterviewers date calendarEvents options tick") auto

lemma sessionTimes_Nil_iff: "sessionTimes pe date sessions = [] \<longleftrightarrow> sessions = []"
  by (cases sessions) (auto simp: Let_def)

lemma findSlotsForDay_startTime:
  assumes "findSlotsForDay now sessions allInterviewers date calendarEvents options tick = Inr st"
    and "c \<in> set (fst st)"
  shows "combination_startTime c = date * 1440 + DEFAULT_APPOINTMENT_START_TIME"
proof -
  from findSlotsForDay_cases[where now = now and sessions = sessions
      and allInterviewers = allInterviewers and date = date and calendarEvents = calendarEvents
      and options = options and tick = tick] assms
  have m: "map window (combination_slots c) = sessionTimes None date (sort_key session_order sessions)"
    and s: "combination_startTime c = slot_startTime (hd (combination_slots c))"
    by auto
  have ne: "sessions \<noteq> []"
  proof
    assume "sessions = []"
    then have "findSlotsForDay now sessions allInterviewers date calendarEvents options tick
                 = Inl TypeError"
      by (simp add: findSlotsForDay_def generateAllSlotCombinations_def
            generateInterviewerCombinations_def)
    with assms(1) show False by simp
  qed
  then obtain x xs where x: "sort_key session_order sessions = x # xs"
    by (cases "sort_key session_order sessions") (auto dest: arg_cong[where f=length])
  with m obtain sl more where sl: "combination_slots c = sl # more"
    by (cases "combination_slots c") (auto simp: Let_def)
  with m x have "window sl = (date * 1440 + DEFAULT_APPOINTMENT_START_TIME,
                   date * 1440 + DEFAULT_APPOINTMENT_START_TIME + duration x)"
    by (simp add: Let_def)
  then show ?thesis using s sl by (simp add: window_def)
qed

lemma sessionTimes_after:
  "\<forall>s \<in> set sessions. 0 \<le> duration s \<and> 0 \<le> breakAfter s \<Longrightarrow>
   w \<in> set (sessionTimes (Some e) date sessions) \<Longrightarrow> e \<le> fst w"
proof (induction sessions arbitrary: e)
  case Nil
  then show ?case by simp
next
  case (Cons s rest)
  from Cons.prems(1) have nn: "0 \<le> duration s" "0 \<le> breakAfter s"
    and r: "\<forall>s \<in> set rest. 0 \<le> duration s \<and> 0 \<le> breakAfter s" by auto
  from Cons.prems(2) consider "w = (e + breakAfter s, e + breakAfter s + duration s)"
    | "w \<in> set (sessionTimes (Some (e + breakAfter s + duration s)) date rest)"
    by (auto simp: Let_def)
  then show ?case
  proof cases
    case 1 then show ?thesis using nn by simp
  next
    case 2
    from Cons.IH[OF r 2] nn show ?thesis by simp
  qed
qed

lemma sessionTimes_chained:
  "\<forall>s \<in> set sessions. 0 \<le> duration s \<and> 0 \<le> breakAfter s \<Longrightarrow>
   sorted_wrt (\<lambda>a b. snd a \<le> fst b) (sessionTimes pe date sessions)"
proof (induction sessions arbitrary: pe)
  case Nil
  then show ?case by simp
next
  case (Cons s rest)
  from Cons.prems have r: "\<forall>s \<in> set rest. 0 \<le> duration s \<and> 0 \<le> breakAfter s" by auto
  show ?case using Cons.IH[OF r] sessionTimes_after[OF r]
    by (auto simp: Let_def)
qed

section \<open>The multi-day search: rounds and plans\<close>

lemma groupLoop_nonempty:
  "[] \<notin> set roundsAcc \<Longrightarrow> [] \<notin> set (groupLoop sessions roundsAcc currentRound)"
  by (induction sessions arbitrary: roundsAcc currentRound) auto

lemma groupLoop_Nil_iff:
  "groupLoop sessions roundsAcc currentRound = []
     \<longleftrightarrow> sessions = [] \<and> roundsAcc = [] \<and> currentRound = []"
  by (induction sessions arbitrary: roundsAcc currentRound) auto

lemma groupSessionsIntoRounds_nonempty:
  "[] \<notin> set (groupSessionsIntoRounds sessions)"
  unfolding groupSessionsIntoRounds_def by (rule groupLoop_nonempty) simp

lemma groupSessionsIntoRounds_Nil_iff: "groupSessionsIntoRounds sessions = [] \<longleftrightarrow> sessions = []"
  unfolding groupSessionsIntoRounds_def groupLoop_Nil_iff
  by (auto dest: arg_cong[where f = length])

text \<open>Every plan pushed by \<open>findRoundSlots\<close> extends the rounds placed so far; an error
  needs an empty round.\<close>

lemma findRoundSlots_invariant:
  "case findRoundSlots rest now roundCount currentRoundIndex previousRounds startDate endDate
          allInterviewers calendarEvents options st of
     Inl e \<Rightarrow> (\<exists>r \<in> set rest. r = [])
   | Inr st' \<Rightarrow>
       \<exists>new. fst st' = fst st @ new
         \<and> (\<forall>p \<in> set new. \<exists>more. plan_rounds p = previousRounds @ more)"
proof (induction rest arbitrary: currentRoundIndex previousRounds st)
  case Nil
  show ?case by simp
next
  case (Cons currentRoundSessions rest)
  let ?P = "\<lambda>prev (s0 :: MultiDayPlan search_state) (s :: MultiDayPlan search_state).
              \<exists>new. fst s = fst s0 @ new
                \<and> (\<forall>p \<in> set new. \<exists>more. plan_rounds p = prev @ more)"
  let ?E = "\<lambda>e :: error. \<exists>r \<in> set (currentRoundSessions # rest). r = []"
  let ?recurse = "\<lambda>roundPlan st''.
                    findRoundSlots rest now roundCount (Suc currentRoundIndex)
                      (previousRounds @ [roundPlan]) startDate endDate allInterviewers
                      calendarEvents options st''"
  let ?body = "\<lambda>currentDate st'.
               findSlotsForRound ?recurse now currentDate currentRoundSessions allInterviewers
                 calendarEvents options previousRounds currentRoundIndex st'"
  show ?case
  proof (cases "searchStart previousRounds currentRoundSessions startDate")
    case (Inl e)
    then have "currentRoundSessions = []"
      by (auto simp: searchStart_def split: if_splits list.splits)
    then show ?thesis using Inl by simp
  next
    case (Inr searchStartDate)
    have "case dateLoop ?body options searchStartDate endDate st of
            Inl e \<Rightarrow> ?E e | Inr s' \<Rightarrow> \<exists>d::int. ?P previousRounds st s'"
    proof (rule dateLoop_rule[where I = "\<lambda>d s. ?P previousRounds st s"])
      show "?P previousRounds st st" by simp
    next
      fix d and s :: "MultiDayPlan search_state"
      assume I: "?P previousRounds st s"
      show "case ?body d s of Inl e \<Rightarrow> ?E e | Inr s' \<Rightarrow> ?P previousRounds st s'"
      proof (cases "findSlotsForDay now currentRoundSessions allInterviewers d calendarEvents
                      options (snd s)")
        case (Inl e)
        with findSlotsForDay_cases[where now = now and sessions = currentRoundSessions
            and allInterviewers = allInterviewers and date = d and calendarEvents = calendarEvents
            and options = options and tick = "snd s"]
        have "currentRoundSessions = []" by simp
        then show ?thesis using Inl by (simp add: findSlotsForRound_def)
      next
        case (Inr day)
        have "case tryDaySlots ?recurse options previousRounds currentRoundIndex d
                     currentRoundSessions (fst day) (fst s, snd day) of
                Inl e \<Rightarrow> ?E e | Inr s' \<Rightarrow> ?P previousRounds st s'"
        proof (rule tryDaySlots_rule)
          show "?P previousRounds st (fst s, snd day)" using I by simp
        next
          fix slotCombo and s1 :: "MultiDayPlan search_state"
          assume I1: "?P previousRounds st s1"
          let ?rp = "\<lparr>roundNumber = currentRoundIndex, round_date = d,
                       combination = slotCombo, round_sessions = currentRoundSessions\<rparr>"
          show "case ?recurse ?rp s1 of Inl e \<Rightarrow> ?E e | Inr s' \<Rightarrow> ?P previousRounds st s'"
          proof (cases "?recurse ?rp s1")
            case (Inl e)
            with Cons.IH[where currentRoundIndex = "Suc currentRoundIndex"
                and previousRounds = "previousRounds @ [?rp]" and st = s1]
            show ?thesis by simp
          next
            case (Inr s2)
            have "?P (previousRounds @ [?rp]) s1 s2"
              using Cons.IH[where currentRoundIndex = "Suc currentRoundIndex"
                and previousRounds = "previousRounds @ [?rp]" and st = s1]
              unfolding Inr sum.case .
            then obtain new2 where n2: "fst s2 = fst s1 @ new2"
              "\<forall>p \<in> set new2. \<exists>more. plan_rounds p = (previousRounds @ [?rp]) @ more" by blast
            from I1 obtain new1 where n1: "fst s1 = fst st @ new1"
              "\<forall>p \<in> set new1. \<exists>more. plan_rounds p = previousRounds @ more" by blast
            have "fst s2 = fst st @ (new1 @ new2)" using n1(1) n2(1) by simp
            moreover have "\<forall>p \<in> set (new1 @ new2). \<exists>more. plan_rounds p = previousRounds @ more"
              using n1(2) n2(2) unfolding set_append append_assoc by blast
            ultimately have "?P previousRounds st s2" by blast
            then show ?thesis unfolding Inr sum.case .
          qed
        qed
        then show ?thesis using Inr by (simp add: findSlotsForRound_def)
      qed
    qed
    then show ?thesis using Inr
      by (cases "dateLoop ?body options searchStartDate endDate st") auto
  qed
qed

text \<open>From the first round on, the dates are tried in increasing order, and every plan
  found for a date starts its first round at the default start time of that date.\<close>

lemma findRoundSlots_sorted:
  "case findRoundSlots roundList now roundCount currentRoundIndex [] startDate endDate
          allInterviewers calendarEvents options ([], tick) of
     Inl e \<Rightarrow> True
   | Inr st' \<Rightarrow> sorted (map firstRoundStart (fst st'))"
proof (cases roundList)
  case Nil
  then show ?thesis by simp
next
  case (Cons currentRoundSessions rest)
  let ?key = "\<lambda>d::int. Some (d * 1440 + DEFAULT_APPOINTMENT_START_TIME)"
  let ?I = "\<lambda>(d::int) (s :: MultiDayPlan search_state).
              sorted (map firstRoundStart (fst s))
              \<and> (\<forall>p \<in> set (fst s). firstRoundStart p < ?key d)"
  let ?recurse = "\<lambda>roundPlan st''.
                    findRoundSlots rest now roundCount (Suc currentRoundIndex)
                      ([] @ [roundPlan]) startDate endDate allInterviewers
                      calendarEvents options st''"
  let ?body = "\<lambda>currentDate st'.
               findSlotsForRound ?recurse now currentDate currentRoundSessions allInterviewers
                 calendarEvents options [] currentRoundIndex st'"
  have "case dateLoop ?body options startDate endDate ([], tick) of
          Inl e \<Rightarrow> True | Inr s' \<Rightarrow> \<exists>d. ?I d s'"
  proof (rule dateLoop_rule[where I = ?I])
    show "?I startDate ([], tick)" by simp
  next
    fix d and s :: "MultiDayPlan search_state"
    assume I: "?I d s"
    let ?Q = "\<lambda>s' :: MultiDayPlan search_state.
                \<exists>new. fst s' = fst s @ new \<and> (\<forall>p \<in> set new. firstRoundStart p = ?key d)"
    have fin: "?I (d + 1) s'" if q: "?Q s'" for s'
    proof -
      from q obtain new where n: "fst s' = fst s @ new"
        "\<forall>p \<in> set new. firstRoundStart p = ?key d" by blast
      have "sorted (map firstRoundStart new)"
        using n(2) by (induction new) auto
      moreover have "\<forall>x \<in> set (fst s). \<forall>y \<in> set new. firstRoundStart x \<le> firstRoundStart y"
        using I n(2) by (auto simp: less_imp_le)
      ultimately have "sorted (map firstRoundStart (fst s'))"
        using I n(1) by (simp add: sorted_append)
      moreover have "\<forall>p \<in> set (fst s'). firstRoundStart p < ?key (d + 1)"
      proof
        fix p assume "p \<in> set (fst s')"
        then consider "p \<in> set (fst s)" | "p \<in> set new" using n(1) by auto
        then show "firstRoundStart p < ?key (d + 1)"
        proof cases
          case 1
          with I have "firstRoundStart p < ?key d" by blast
          also have "?key d < ?key (d + 1)" by simp
          finally show ?thesis .
        next
          case 2
          with n(2) show ?thesis by simp
        qed
      qed
      ultimately show ?thesis by blast
    qed
    show "case ?body d s of Inl e \<Rightarrow> True | Inr s' \<Rightarrow> ?I (d + 1) s'"
    proof (cases "findSlotsForDay now currentRoundSessions allInterviewers d calendarEvents
                    options (snd s)")
      case (Inl e)
      then show ?thesis by (simp add: findSlotsForRound_def)
    next
      case (Inr day)
      have "case tryDaySlots ?recurse options [] currentRoundIndex d
                   currentRoundSessions (fst day) (fst s, snd day) of
              Inl e \<Rightarrow> True | Inr s' \<Rightarrow> ?Q s'"
      proof (rule tryDaySlots_rule)
        show "?Q (fst s, snd day)" by simp
      next
        fix slotCombo and s1 :: "MultiDayPlan search_state"
        assume mem: "slotCombo \<in> set (fst day)" and Q1: "?Q s1"
        let ?rp = "\<lparr>roundNumber = currentRoundIndex, round_date = d,
                     combination = slotCombo, round_sessions = currentRoundSessions\<rparr>"
        have st: "combination_startTime slotCombo = d * 1440 + DEFAULT_APPOINTMENT_START_TIME"
          by (rule findSlotsForDay_startTime[OF Inr mem])
        show "case ?recurse ?rp s1 of Inl e \<Rightarrow> True | Inr s' \<Rightarrow> ?Q s'"
        proof (cases "?recurse ?rp s1")
          case (Inl e)
          then show ?thesis by simp
        next
          case (Inr s2)
          have "\<exists>new. fst s2 = fst s1 @ new
                  \<and> (\<forall>p \<in> set new. \<exists>more. plan_rounds p = ([] @ [?rp]) @ more)"
            using findRoundSlots_invariant[where rest = rest and now = now
                and roundCount = roundCount and currentRoundIndex = "Suc currentRoundIndex"
                and previousRounds = "[] @ [?rp]" and startDate = startDate
                and endDate = endDate and allInterviewers = allInterviewers
                and calendarEvents = calendarEvents and options = options and st = s1]
            unfolding Inr sum.case .
          then obtain new2 where n2: "fst s2 = fst s1 @ new2"
            "\<forall>p \<in> set new2. \<exists>more. plan_rounds p = (?rp # []) @ more" by auto
          have k2: "\<forall>p \<in> set new2. firstRoundStart p = ?key d"
            using n2(2) st by (auto simp: firstRoundStart_def)
          from Q1 obtain new1 where n1: "fst s1 = fst s @ new1"
            "\<forall>p \<in> set new1. firstRoundStart p = ?key d" by blast
          have "fst s2 = fst s @ (new1 @ new2)" using n1(1) n2(1) by simp
          moreover have "\<forall>p \<in> set (new1 @ new2). firstRoundStart p = ?key d"
            using n1(2) k2 by auto
          ultimately have "?Q s2" by blast
          then show ?thesis unfolding Inr sum.case .
        qed
      qed
      then show ?thesis using Inr fin
        by (cases "tryDaySlots ?recurse options [] currentRoundIndex d
                     currentRoundSessions (fst day) (fst s, snd day)")
           (simp_all add: findSlotsForRound_def)
    qed
  qed
  then show ?thesis using Cons
    by (cases "dateLoop ?body options startDate endDate ([], tick)")
       (auto simp: searchStart_def)
qed

section \<open>Start times within a day\<close>

text \<open>
  Claim C2, evaluated on the code. Two sessions on Monday 2024-02-05: the first lasts 60
  minutes and has \<open>breakAfter = 15\<close>, the second lasts 45 minutes and has
  \<open>breakAfter = 0\<close>. The first slot starts at the day-default start time, 09:00
  (minute 28452060), and ends at 10:00; the second slot starts at 10:00, the end of the
  first slot plus the \<open>breakAfter\<close> of the second session, not at 10:15.
\<close>

theorem second_slot_start_uses_own_break:
  "\<exists>st. findSlotsForDay now
          [exampleSession ''technical'' 60 15 1, exampleSession ''behavioral'' 45 0 2]
          [exampleInterviewer ''ann''] 19758 noEvents emptyOptions 0 = Inr st
        \<and> map (\<lambda>c. map window (combination_slots c)) (fst st)
            = [[(28452060, 28452120), (28452120, 28452165)]]"
  by (simp add: evals)

section \<open>Omitted constraint flags\<close>

text \<open>
  Claim C3, evaluated on the code. An interviewer with a daily limit of one interview has
  a busy interval from 09:30 to 10:30 on Monday 2024-02-05. With the options object \<open>{}\<close>
  the search accepts the 09:00 to 10:00 slot for that interviewer: the busy-interval and
  load-limit checks run only when their flags are truthy. With the engine's built-in
  default options the slot is pruned.
\<close>

theorem omitted_flags_skip_calendar_and_load_checks:
  "(\<exists>st. findSlotsForDay now [exampleSession ''technical'' 60 0 1]
           [(exampleInterviewer ''ann'')\<lparr>limits_daily := \<lparr>limit_type = count, limit_max = 1\<rparr>\<rparr>]
           19758
           (noEvents(''ann'' \<mapsto> [\<lparr>event_id = ''e1'', event_title = ''busy'',
                                  event_start = 28452090, event_end = 28452150\<rparr>]))
           emptyOptions 0 = Inr st
         \<and> map (\<lambda>c. map window (combination_slots c)) (fst st) = [[(28452060, 28452120)]])
   \<and> (\<exists>st. findSlotsForDay now [exampleSession ''technical'' 60 0 1]
           [(exampleInterviewer ''ann'')\<lparr>limits_daily := \<lparr>limit_type = count, limit_max = 1\<rparr>\<rparr>]
           19758
           (noEvents(''ann'' \<mapsto> [\<lparr>event_id = ''e1'', event_title = ''busy'',
                                  event_start = 28452090, event_end = 28452150\<rparr>]))
           builtinDefaultOptions 0 = Inr st
         \<and> fst st = [])"
  by (simp add: evals builtinDefaultOptions_def)

section \<open>Slots of an accepted combination\<close>

lemma windows_chained_no_overlap:
  assumes "sorted_wrt (\<lambda>a b. snd a \<le> fst b) (map window slotList)"
    and "i < length slotList" "j < length slotList" "i \<noteq> j"
  shows "\<not> windowsOverlap (slotList ! i) (slotList ! j)"
proof -
  have s: "sorted_wrt (\<lambda>a b. slot_endTime a \<le> slot_startTime b) slotList"
    using assms(1) by (simp add: sorted_wrt_map window_def)
  from assms(4) consider "i < j" | "j < i" by linarith
  then show ?thesis
  proof cases
    case 1
    from sorted_wrt_nth_less[OF s 1 assms(3)] show ?thesis by (simp add: windowsOverlap_def)
  next
    case 2
    from sorted_wrt_nth_less[OF s 2 assms(2)] show ?thesis by (simp add: windowsOverlap_def)
  qed
qed

text \<open>
  Claim C6, as the code has it. When no session has a negative duration or a negative
  \<open>breakAfter\<close>, in every combination accepted by the single-day search any two slots
  (at two different positions) that share a participant have windows that do not overlap.
  The search places the sessions one after the other and never compares a slot with the
  slots placed before it, so the property rests on the sign of these numbers.
\<close>

theorem accepted_slots_do_not_overlap:
  assumes "findSlotsForDay now sessions allInterviewers date calendarEvents options tick = Inr st"
    and "\<forall>s \<in> set sessions. 0 \<le> duration s \<and> 0 \<le> breakAfter s"
    and "c \<in> set (fst st)"
    and "i < length (combination_slots c)" "j < length (combination_slots c)" "i \<noteq> j"
    and "p \<in> set (map interviewerId (slot_interviewers (combination_slots c ! i)))"
    and "p \<in> set (map interviewerId (slot_interviewers (combination_slots c ! j)))"
  shows "\<not> windowsOverlap (combination_slots c ! i) (combination_slots c ! j)"
proof -
  from findSlotsForDay_cases[where now = now and sessions = sessions
      and allInterviewers = allInterviewers and date = date and calendarEvents = calendarEvents
      and options = options and tick = tick] assms(1,3)
  have m: "map window (combination_slots c)
             = sessionTimes None date (sort_key session_order sessions)" by auto
  have "\<forall>s \<in> set (sort_key session_order sessions). 0 \<le> duration s \<and> 0 \<le> breakAfter s"
    using assms(2) by simp
  from sessionTimes_chained[OF this, of None date] m
  have "sorted_wrt (\<lambda>a b. snd a \<le> fst b) (map window (combination_slots c))" by simp
  from windows_chained_no_overlap[OF this assms(4,5,6)] show ?thesis .
qed

theorem accepted_slots_do_not_overlap_witness:
  "list_all (\<lambda>s. 0 \<le> duration s \<and> 0 \<le> breakAfter s)
     [exampleSession ''technical'' 60 15 1, exampleSession ''behavioral'' 45 0 2]
   \<and> (\<exists>st c. findSlotsForDay (\<lambda>n. 0)
                [exampleSession ''technical'' 60 15 1, exampleSession ''behavioral'' 45 0 2]
                [exampleInterviewer ''ann''] 19758 noEvents emptyOptions 0 = Inr st
          \<and> c \<in> set (fst st)
          \<and> 1 < length (combination_slots c)
          \<and> ''ann'' \<in> set (map interviewerId (slot_interviewers (combination_slots c ! 0)))
          \<and> ''ann'' \<in> set (map interviewerId (slot_interviewers (combination_slots c ! 1)))
          \<and> \<not> windowsOverlap (combination_slots c ! 0) (combination_slots c ! 1))"
proof -
  let ?sessions = "[exampleSession ''technical'' 60 15 1, exampleSession ''behavioral'' 45 0 2]"
  have nn: "\<forall>s \<in> set ?sessions. 0 \<le> duration s \<and> 0 \<le> breakAfter s"
    by (simp add: exampleSession_def)
  have "\<exists>st c. findSlotsForDay (\<lambda>n. 0) ?sessions [exampleInterviewer ''ann''] 19758 noEvents
                  emptyOptions 0 = Inr st
          \<and> c \<in> set (fst st)
          \<and> 1 < length (combination_slots c)
          \<and> ''ann'' \<in> set (map interviewerId (slot_interviewers (combination_slots c ! 0)))
          \<and> ''ann'' \<in> set (map interviewerId (slot_interviewers (combination_slots c ! 1)))"
    by (simp add: evals)
  then obtain st c where h:
    "findSlotsForDay (\<lambda>n. 0) ?sessions [exampleInterviewer ''ann''] 19758 noEvents
       emptyOptions 0 = Inr st"
    "c \<in> set (fst st)" "1 < length (combination_slots c)"
    "''ann'' \<in> set (map interviewerId (slot_interviewers (combination_slots c ! 0)))"
    "''ann'' \<in> set (map interviewerId (slot_interviewers (combination_slots c ! 1)))"
    by blast
  have "\<not> windowsOverlap (combination_slots c ! 0) (combination_slots c ! 1)"
    by (rule accepted_slots_do_not_overlap[OF h(1) nn h(2) _ h(3) _ h(4) h(5)])
       (use h(3) in auto)
  with h nn show ?thesis unfolding list_all_iff by blast
qed

text \<open>
  The claim as stated covers every \<open>breakAfter\<close> value. With \<open>breakAfter = -30\<close> on the
  second session, the second slot starts 30 minutes before the first one ends, and the
  same interviewer is assigned to both.
\<close>

theorem accepted_slots_overlap_counterexample:
  "\<exists>st c. findSlotsForDay (\<lambda>n. 0)
             [exampleSession ''technical'' 60 0 1, exampleSession ''behavioral'' 45 (- 30) 2]
             [exampleInterviewer ''ann''] 19758 noEvents emptyOptions 0 = Inr st
       \<and> c \<in> set (fst st)
       \<and> ''ann'' \<in> set (map interviewerId (slot_interviewers (combination_slots c ! 0)))
       \<and> ''ann'' \<in> set (map interviewerId (slot_interviewers (combination_slots c ! 1)))
       \<and> windowsOverlap (combination_slots c ! 0) (combination_slots c ! 1)"
  by (simp add: evals windowsOverlap_def)

section \<open>Gap between rounds\<close>

text \<open>
  Claim C1, evaluated on the code. Two sessions, the first with \<open>breakAfter = 1440\<close>, the
  second with \<open>breakAfter = 0\<close>: they form two rounds. With two interviewers and the date
  range from 2024-02-05 to 2024-02-05, the search returns two plans, and both place the
  second round on the date of the first. The gap is computed from
  \<open>currentRoundSessions[0]\<close>, the first session of the round being placed, and not from
  the session that closed the round before it.
\<close>

theorem second_round_on_same_date:
  "groupSessionsIntoRounds
     [exampleSession ''round1'' 60 1440 1, exampleSession ''round2'' 45 0 2]
     = [[exampleSession ''round1'' 60 1440 1], [exampleSession ''round2'' 45 0 2]]
   \<and> (\<exists>st. findMultiDaySlots now
              [exampleSession ''round1'' 60 1440 1, exampleSession ''round2'' 45 0 2]
              [exampleInterviewer ''ann'', exampleInterviewer ''bob'']
              (19758, 19758) noEvents emptyOptions 0 = Inr st
          \<and> map (\<lambda>p. map round_date (plan_rounds p)) (fst st)
              = [[19758, 19758], [19758, 19758]])"
  by (simp add: evals)

section \<open>Order of the plans\<close>

text \<open>
  Claim C4, as the code has it. The list of plans returned by \<open>findMultiDaySlots\<close> is
  sorted by the start time of the first round, ascending. (The code has no final sort:
  the order is that of the search over the dates.)
\<close>

theorem plans_ascending_by_first_round_start:
  assumes "findMultiDaySlots now sessions allInterviewers dateRange calendarEvents options tick
             = Inr st"
  shows "sorted (map firstRoundStart (fst st))"
  using findRoundSlots_sorted[where roundList = "groupSessionsIntoRounds sessions" and now = now
      and roundCount = "length (groupSessionsIntoRounds sessions)" and currentRoundIndex = 0
      and startDate = "fst dateRange" and endDate = "snd dateRange"
      and allInterviewers = allInterviewers and calendarEvents = calendarEvents
      and options = options and tick = tick] assms
  by (simp add: findMultiDaySlots_def Let_def)

text \<open>
  Two sessions a day apart, two interviewers, and the two days 2024-02-05 and 2024-02-06:
  six plans are found, four with the first round at 09:00 on the first day, then two
  with the first round at 09:00 on the second day.
\<close>

theorem plans_ascending_by_first_round_start_witness:
  "\<exists>st. findMultiDaySlots (\<lambda>n. 0)
          [exampleSession ''s1'' 60 1440 1, exampleSession ''s2'' 45 0 2]
          [exampleInterviewer ''ann'', exampleInterviewer ''bob'']
          (19758, 19759) noEvents emptyOptions 0 = Inr st
        \<and> map firstRoundStart (fst st)
            = [Some 28452060, Some 28452060, Some 28452060, Some 28452060,
               Some 28453500, Some 28453500]
        \<and> sorted (map firstRoundStart (fst st))"
proof -
  let ?run = "findMultiDaySlots (\<lambda>n. 0)
          [exampleSession ''s1'' 60 1440 1, exampleSession ''s2'' 45 0 2]
          [exampleInterviewer ''ann'', exampleInterviewer ''bob'']
          (19758, 19759) noEvents emptyOptions 0"
  have "\<exists>st. ?run = Inr st
          \<and> map firstRoundStart (fst st)
              = [Some 28452060, Some 28452060, Some 28452060, Some 28452060,
                 Some 28453500, Some 28453500]"
    by (simp add: evals firstRoundStart_def)
  then obtain st where h: "?run = Inr st"
    "map firstRoundStart (fst st)
       = [Some 28452060, Some 28452060, Some 28452060, Some 28452060,
          Some 28453500, Some 28453500]"
    by (elim exE conjE)
  have "sorted (map firstRoundStart (fst st))"
    by (rule plans_ascending_by_first_round_start[OF h(1)])
  then show ?thesis
    using h by (intro exI[of _ st] conjI)
qed

text \<open>
  The claim as stated breaks ties by mean density. Three sessions: the first (pool ann,
  bob) closes the first round; the second and third (pool ann, cat) form the second
  round, a day later. The first plan found (ann, then cat twice) has mean density 3/8
  and the second plan (bob, then ann and cat) has mean density 1/4, with equal
  first-round start times.
\<close>

theorem plans_tie_break_counterexample:
  "\<exists>st. findMultiDaySlots (\<lambda>n. 0)
          [(exampleSession ''s1'' 60 1440 1)\<lparr>interviewerPool := Some [''ann'', ''bob'']\<rparr>,
           (exampleSession ''s2'' 45 15 2)\<lparr>interviewerPool := Some [''ann'', ''cat'']\<rparr>,
           (exampleSession ''s3'' 45 0 3)\<lparr>interviewerPool := Some [''ann'', ''cat'']\<rparr>]
          [exampleInterviewer ''ann'', exampleInterviewer ''bob'', exampleInterviewer ''cat'']
          (19758, 19759) noEvents emptyOptions 0 = Inr st
        \<and> firstRoundStart (fst st ! 0) = firstRoundStart (fst st ! 1)
        \<and> planMeanDensity (fst st ! 0) = 3 / 8
        \<and> planMeanDensity (fst st ! 1) = 1 / 4"
  by (simp add: evals firstRoundStart_def planMeanDensity_def)

section \<open>Validation and errors of the engine\<close>

lemma dateLoop_past_end:
  "end < currentDate \<Longrightarrow> dateLoop body options currentDate end st = Inr st"
  by (subst dateLoop.simps) simp

lemma findMultiDaySlots_no_error:
  "\<exists>st. findMultiDaySlots now sessions allInterviewers dateRange calendarEvents options tick = Inr st"
proof -
  let ?r = "findRoundSlots (groupSessionsIntoRounds sessions) now
              (length (groupSessionsIntoRounds sessions)) 0 [] (fst dateRange) (snd dateRange)
              allInterviewers calendarEvents options ([], tick)"
  have "\<exists>st. ?r = Inr st"
    using findRoundSlots_invariant[where rest = "groupSessionsIntoRounds sessions" and now = now
        and roundCount = "length (groupSessionsIntoRounds sessions)" and currentRoundIndex = 0
        and previousRounds = "[]" and startDate = "fst dateRange" and endDate = "snd dateRange"
        and allInterviewers = allInterviewers and calendarEvents = calendarEvents
        and options = options and st = "([], tick)"]
      groupSessionsIntoRounds_nonempty[of sessions]
    by (cases ?r) auto
  then show ?thesis by (simp add: findMultiDaySlots_def Let_def)
qed

lemma findMultiDaySlots_inverted:
  assumes "sessions \<noteq> []" "snd dateRange < fst dateRange"
  shows "findMultiDaySlots now sessions allInterviewers dateRange calendarEvents options tick
           = Inr ([], tick)"
proof -
  from assms(1) obtain r rest where "groupSessionsIntoRounds sessions = r # rest"
    using groupSessionsIntoRounds_Nil_iff[of sessions]
    by (cases "groupSessionsIntoRounds sessions") auto
  then show ?thesis using assms(2)
    by (simp add: findMultiDaySlots_def Let_def searchStart_def dateLoop_past_end)
qed

lemma instantLoop_no_error:
  assumes "\<And>d s. \<exists>s'. body d s = Inr s'"
  shows "\<exists>st'. instantLoop body options currentDate endDate st = Inr st'"
  using assms
proof (induction body options currentDate endDate st rule: instantLoop.induct)
  case (1 body options currentDate endDate st)
  show ?case
  proof (cases "currentDate \<le> endDate")
    case False
    then show ?thesis by (subst instantLoop.simps) simp
  next
    case True
    from "1.prems" obtain s' where s': "body currentDate st = Inr s'" by blast
    show ?thesis
    proof (cases "maxReached options (fst s')")
      case mt: True
      then show ?thesis using True s' by (subst instantLoop.simps) simp
    next
      case mf: False
      have "\<exists>st'. instantLoop body options (currentDate + MINUTES_IN_DAY) endDate s' = Inr st'"
        by (rule "1.IH"[OF True s' mf]) (rule "1.prems")
      then show ?thesis using True s' mf by (subst instantLoop.simps) simp
    qed
  qed
qed

lemma singleDay_no_error:
  assumes "sessions \<noteq> []"
  shows "\<exists>st'. instantLoop (singleDayStep now sessions allInterviewers calendarEvents options)
                 options' currentDate endDate st = Inr st'"
proof (rule instantLoop_no_error)
  fix d and s :: "SessionCombination search_state"
  from findSlotsForDay_no_error[OF assms, of now allInterviewers "formatDate d" calendarEvents
      options "snd s"]
  show "\<exists>s'. singleDayStep now sessions allInterviewers calendarEvents options d s = Inr s'"
    by (auto simp: singleDayStep_def Let_def)
qed

lemma createAndCheckSlot_conflict:
  "checkSlotConflicts (createSlot session combo start nowMs) combo calendarEvents options \<noteq> []
   \<Longrightarrow> createAndCheckSlot session combo start calendarEvents options nowMs = None"
  by (simp add: createAndCheckSlot_def Let_def)

lemma tryCombinations_all_conflicts:
  assumes "\<And>combo t. combo \<in> set combos \<Longrightarrow>
      checkSlotConflicts (createSlot session combo start t) combo calendarEvents options \<noteq> []"
  shows "tryCombinations recurse now session start calendarEvents options combos st
           = Inr (fst st, snd st + length combos)"
  using assms
proof (induction combos arbitrary: st)
  case Nil
  then show ?case by simp
next
  case (Cons combo rest)
  have n: "createAndCheckSlot session combo start calendarEvents options (now (snd st)) = None"
    by (rule createAndCheckSlot_conflict) (rule Cons.prems, simp)
  have "tryCombinations recurse now session start calendarEvents options rest (fst st, Suc (snd st))
          = Inr (fst (fst st, Suc (snd st)), snd (fst st, Suc (snd st)) + length rest)"
    by (rule Cons.IH) (rule Cons.prems, simp)
  then show ?case using n by simp
qed

text \<open>
  Claim C5, as the code has it. \<open>findSlots\<close> raises a \<open>ValidationError\<close>, before it
  fetches any calendar or reads the clock, when the session list is empty, when the
  interviewer list is empty, or when the start or the end of the date range is missing,
  and in no other case. A range whose end is before its start is not rejected: for
  sessions that need multi-day scheduling the loop over the dates runs zero times and
  the result is the empty list of plans. A candidate slot with a conflict (work hours,
  holiday, day off, blocked time, busy interval, load limit) is not raised as an error:
  \<open>createAndCheckSlot\<close> returns no slot for it, and the search goes on with the next
  interviewer combination; a session all of whose combinations have a conflict leaves
  the results as they were.
\<close>

theorem findSlots_validation_and_pruning:
  "(find_sessions opts = [] \<longrightarrow>
      findSlots zonedTimeToUtc now engine opts tick
        = (Inl (ValidationError ''At least one session is required.''), engine, tick))
   \<and> (find_sessions opts \<noteq> [] \<and> find_interviewers opts = [] \<longrightarrow>
      findSlots zonedTimeToUtc now engine opts tick
        = (Inl (ValidationError ''At least one interviewer is required.''), engine, tick))
   \<and> (find_sessions opts \<noteq> [] \<and> find_interviewers opts \<noteq> []
        \<and> (dateRange_start opts = None \<or> dateRange_end opts = None) \<longrightarrow>
      findSlots zonedTimeToUtc now engine opts tick
        = (Inl (ValidationError ''A date range with a start and end is required.''), engine, tick))
   \<and> (find_sessions opts \<noteq> [] \<and> find_interviewers opts \<noteq> []
        \<and> dateRange_start opts = Some start \<and> dateRange_end opts = Some end \<longrightarrow>
      (\<forall>message. fst (findSlots zonedTimeToUtc now engine opts tick)
                   \<noteq> Inl (ValidationError message)))
   \<and> (find_sessions opts \<noteq> [] \<and> find_interviewers opts \<noteq> []
        \<and> dateRange_start opts = Some start \<and> dateRange_end opts = Some end
        \<and> needsMultiDayScheduling (find_sessions opts) \<and> end < start \<longrightarrow>
      fst (findSlots zonedTimeToUtc now engine opts tick) = Inr (Plans []))
   \<and> (checkSlotConflicts (createSlot session combo slotStart (now (snd st))) combo
          calendarEvents options \<noteq> [] \<longrightarrow>
      createAndCheckSlot session combo slotStart calendarEvents options (now (snd st)) = None
      \<and> tryCombinations recurse now session slotStart calendarEvents options (combo # rest) st
          = tryCombinations recurse now session slotStart calendarEvents options rest
              (fst st, Suc (snd st)))
   \<and> ((\<forall>combo \<in> set combos. \<forall>t.
          checkSlotConflicts (createSlot session combo slotStart t) combo calendarEvents options
            \<noteq> []) \<longrightarrow>
      tryCombinations recurse now session slotStart calendarEvents options combos st
        = Inr (fst st, snd st + length combos))"
proof (intro conjI impI)
  assume "find_sessions opts = []"
  then show "findSlots zonedTimeToUtc now engine opts tick
        = (Inl (ValidationError ''At least one session is required.''), engine, tick)"
    by (simp add: findSlots_def)
next
  assume "find_sessions opts \<noteq> [] \<and> find_interviewers opts = []"
  then show "findSlots zonedTimeToUtc now engine opts tick
        = (Inl (ValidationError ''At least one interviewer is required.''), engine, tick)"
    by (simp add: findSlots_def)
next
  assume "find_sessions opts \<noteq> [] \<and> find_interviewers opts \<noteq> []
        \<and> (dateRange_start opts = None \<or> dateRange_end opts = None)"
  then show "findSlots zonedTimeToUtc now engine opts tick
        = (Inl (ValidationError ''A date range with a start and end is required.''), engine, tick)"
    by (auto simp: findSlots_def split: option.splits)
next
  assume a: "find_sessions opts \<noteq> [] \<and> find_interviewers opts \<noteq> []
        \<and> dateRange_start opts = Some start \<and> dateRange_end opts = Some end"
  let ?merged = "mergeOptions (defaultOptions engine) (find_options opts)"
  let ?cal = "fst (fetchCalendarEvents (calendarCache engine) (find_interviewers opts))"
  obtain stm where m: "findMultiDaySlots now (find_sessions opts) (find_interviewers opts)
                         (start, end) ?cal ?merged tick = Inr stm"
    using findMultiDaySlots_no_error by blast
  show "\<forall>message. fst (findSlots zonedTimeToUtc now engine opts tick)
                   \<noteq> Inl (ValidationError message)"
  proof (cases "needsMultiDayScheduling (find_sessions opts)")
    case True
    then show ?thesis using a m by (simp add: findSlots_def Let_def)
  next
    case nm: False
    show ?thesis
    proof (cases zonedTimeToUtc)
      case None
      then show ?thesis using a nm by (simp add: findSlots_def Let_def rethrow_def)
    next
      case (Some toUtc)
      obtain sts where "instantLoop (singleDayStep now (find_sessions opts)
                           (find_interviewers opts) ?cal ?merged) ?merged
                           (toUtc start (engine_timezone engine))
                           (toUtc end (engine_timezone engine)) ([], tick) = Inr sts"
        using singleDay_no_error a by blast
      then show ?thesis using a nm Some by (simp add: findSlots_def Let_def)
    qed
  qed
next
  assume a: "find_sessions opts \<noteq> [] \<and> find_interviewers opts \<noteq> []
        \<and> dateRange_start opts = Some start \<and> dateRange_end opts = Some end
        \<and> needsMultiDayScheduling (find_sessions opts) \<and> end < start"
  let ?merged = "mergeOptions (defaultOptions engine) (find_options opts)"
  let ?cal = "fst (fetchCalendarEvents (calendarCache engine) (find_interviewers opts))"
  have "findMultiDaySlots now (find_sessions opts) (find_interviewers opts)
          (start, end) ?cal ?merged tick = Inr ([], tick)"
    using findMultiDaySlots_inverted[of "find_sessions opts" "(start, end)"
        now "find_interviewers opts" ?cal ?merged tick] a by simp
  then show "fst (findSlots zonedTimeToUtc now engine opts tick) = Inr (Plans [])"
    using a by (simp add: findSlots_def Let_def)
next
  assume c: "checkSlotConflicts (createSlot session combo slotStart (now (snd st))) combo
          calendarEvents options \<noteq> []"
  show n: "createAndCheckSlot session combo slotStart calendarEvents options (now (snd st)) = None"
    by (rule createAndCheckSlot_conflict[OF c])
  show "tryCombinations recurse now session slotStart calendarEvents options (combo # rest) st
          = tryCombinations recurse now session slotStart calendarEvents options rest
              (fst st, Suc (snd st))"
    using n by simp
next
  assume "\<forall>combo \<in> set combos. \<forall>t.
          checkSlotConflicts (createSlot session combo slotStart t) combo calendarEvents options
            \<noteq> []"
  then show "tryCombinations recurse now session slotStart calendarEvents options combos st
        = Inr (fst st, snd st + length combos)"
    by (intro tryCombinations_all_conflicts) blast
qed

text \<open>
  The three validation errors; a call that passes the three checks and raises an error
  that is no \<open>ValidationError\<close> (single-day scheduling with a package that exports no
  \<open>zonedTimeToUtc\<close>); a multi-day search over a range whose end is before its start;
  and a candidate slot from 09:00 to 10:00 for an interviewer who is busy from 09:30 to
  10:30 (the slot is pruned, nothing is raised).
\<close>

theorem findSlots_validation_and_pruning_witness:
  "findSlots None (\<lambda>n. 0) (newSchedulingEngine \<lparr>config_timezone = ''UTC'', config_defaultOptions = None\<rparr>)
     \<lparr>find_sessions = [], find_interviewers = [exampleInterviewer ''ann''],
      dateRange_start = Some 19758, dateRange_end = Some 19758,
      candidateTimezone = ''UTC'', find_options = None\<rparr> 0
     = (Inl (ValidationError ''At least one session is required.''),
        newSchedulingEngine \<lparr>config_timezone = ''UTC'', config_defaultOptions = None\<rparr>, 0)
   \<and> findSlots None (\<lambda>n. 0) (newSchedulingEngine \<lparr>config_timezone = ''UTC'', config_defaultOptions = None\<rparr>)
     \<lparr>find_sessions = [exampleSession ''technical'' 60 0 1], find_interviewers = [],
      dateRange_start = Some 19758, dateRange_end = Some 19758,
      candidateTimezone = ''UTC'', find_options = None\<rparr> 0
     = (Inl (ValidationError ''At least one interviewer is required.''),
        newSchedulingEngine \<lparr>config_timezone = ''UTC'', config_defaultOptions = None\<rparr>, 0)
   \<and> findSlots None (\<lambda>n. 0) (newSchedulingEngine \<lparr>config_timezone = ''UTC'', config_defaultOptions = None\<rparr>)
     \<lparr>find_sessions = [exampleSession ''technical'' 60 0 1],
      find_interviewers = [exampleInterviewer ''ann''],
      dateRange_start = None, dateRange_end = Some 19758,
      candidateTimezone = ''UTC'', find_options = None\<rparr> 0
     = (Inl (ValidationError ''A date range with a start and end is required.''),
        newSchedulingEngine \<lparr>config_timezone = ''UTC'', config_defaultOptions = None\<rparr>, 0)
   \<and> fst (findSlots None (\<lambda>n. 0)
        (newSchedulingEngine \<lparr>config_timezone = ''UTC'', config_defaultOptions = None\<rparr>)
        \<lparr>find_sessions = [exampleSession ''technical'' 60 0 1],
         find_interviewers = [exampleInterviewer ''ann''],
         dateRange_start = Some 19758, dateRange_end = Some 19758,
         candidateTimezone = ''UTC'', find_options = None\<rparr> 0)
     \<noteq> Inl (ValidationError ''A date range with a start and end is required.'')
   \<and> needsMultiDayScheduling
        [exampleSession ''round1'' 60 1440 1, exampleSession ''round2'' 45 0 2]
   \<and> fst (findSlots None (\<lambda>n. 0)
        (newSchedulingEngine \<lparr>config_timezone = ''UTC'', config_defaultOptions = None\<rparr>)
        \<lparr>find_sessions = [exampleSession ''round1'' 60 1440 1, exampleSession ''round2'' 45 0 2],
         find_interviewers = [exampleInterviewer ''ann''],
         dateRange_start = Some 19759, dateRange_end = Some 19758,
         candidateTimezone = ''UTC'', find_options = None\<rparr> 0)
     = Inr (Plans [])
   \<and> checkSlotConflicts
        (createSlot (exampleSession ''technical'' 60 0 1) [exampleInterviewer ''ann''] 28452060 0)
        [exampleInterviewer ''ann'']
        ((\<lambda>k. None)(''ann'' \<mapsto>
           [\<lparr>event_id = ''e1'', event_title = ''busy'',
             event_start = 28452090, event_end = 28452150\<rparr>]))
        builtinDefaultOptions \<noteq> []
   \<and> createAndCheckSlot (exampleSession ''technical'' 60 0 1) [exampleInterviewer ''ann'']
        28452060
        ((\<lambda>k. None)(''ann'' \<mapsto>
           [\<lparr>event_id = ''e1'', event_title = ''busy'',
             event_start = 28452090, event_end = 28452150\<rparr>]))
        builtinDefaultOptions 0 = None
   \<and> tryCombinations (\<lambda>slot s. Inr s) (\<lambda>n. 0) (exampleSession ''technical'' 60 0 1) 28452060
        ((\<lambda>k. None)(''ann'' \<mapsto>
           [\<lparr>event_id = ''e1'', event_title = ''busy'',
             event_start = 28452090, event_end = 28452150\<rparr>]))
        builtinDefaultOptions [[exampleInterviewer ''ann'']] ([], 0)
     = Inr ([], 1)"
proof -
  let ?engine = "newSchedulingEngine \<lparr>config_timezone = ''UTC'', config_defaultOptions = None\<rparr>"
  let ?cal = "(\<lambda>k. None)(''ann'' \<mapsto>
           [\<lparr>event_id = ''e1'', event_title = ''busy'',
             event_start = 28452090, event_end = 28452150\<rparr>]) :: calendar"
  let ?session = "exampleSession ''technical'' 60 0 1"
  let ?o1 = "\<lparr>find_sessions = [], find_interviewers = [exampleInterviewer ''ann''],
      dateRange_start = Some 19758, dateRange_end = Some 19758,
      candidateTimezone = ''UTC'', find_options = None\<rparr>"
  let ?o2 = "\<lparr>find_sessions = [exampleSession ''technical'' 60 0 1], find_interviewers = [],
      dateRange_start = Some 19758, dateRange_end = Some 19758,
      candidateTimezone = ''UTC'', find_options = None\<rparr>"
  let ?o3 = "\<lparr>find_sessions = [exampleSession ''technical'' 60 0 1],
      find_interviewers = [exampleInterviewer ''ann''],
      dateRange_start = None, dateRange_end = Some 19758,
      candidateTimezone = ''UTC'', find_options = None\<rparr>"
  let ?o4 = "\<lparr>find_sessions = [exampleSession ''technical'' 60 0 1],
      find_interviewers = [exampleInterviewer ''ann''],
      dateRange_start = Some 19758, dateRange_end = Some 19758,
      candidateTimezone = ''UTC'', find_options = None\<rparr>"
  let ?o5 = "\<lparr>find_sessions = [exampleSession ''round1'' 60 1440 1, exampleSession ''round2'' 45 0 2],
      find_interviewers = [exampleInterviewer ''ann''],
      dateRange_start = Some 19759, dateRange_end = Some 19758,
      candidateTimezone = ''UTC'', find_options = None\<rparr>"
  have 1: "findSlots None (\<lambda>n. 0) ?engine ?o1 0
             = (Inl (ValidationError ''At least one session is required.''), ?engine, 0)"
    using findSlots_validation_and_pruning[of ?o1 None "\<lambda>n. 0" ?engine 0] by simp
  have 2: "findSlots None (\<lambda>n. 0) ?engine ?o2 0
             = (Inl (ValidationError ''At least one interviewer is required.''), ?engine, 0)"
    using findSlots_validation_and_pruning[of ?o2 None "\<lambda>n. 0" ?engine 0] by simp
  have 3: "findSlots None (\<lambda>n. 0) ?engine ?o3 0
             = (Inl (ValidationError ''A date range with a start and end is required.''), ?engine, 0)"
    using findSlots_validation_and_pruning[of ?o3 None "\<lambda>n. 0" ?engine 0]
    by (simp add: exampleSession_def)
  have 4: "fst (findSlots None (\<lambda>n. 0) ?engine ?o4 0)
             \<noteq> Inl (ValidationError ''A date range with a start and end is required.'')"
    using findSlots_validation_and_pruning[of ?o4 None "\<lambda>n. 0" ?engine 0 19758 19758]
    by (simp add: exampleSession_def)
  have m: "needsMultiDayScheduling
             [exampleSession ''round1'' 60 1440 1, exampleSession ''round2'' 45 0 2]"
    by (simp add: needsMultiDayScheduling_def exampleSession_def MINUTES_IN_DAY_def)
  have 5: "fst (findSlots None (\<lambda>n. 0) ?engine ?o5 0) = Inr (Plans [])"
    using findSlots_validation_and_pruning[of ?o5 None "\<lambda>n. 0" ?engine 0 19759 19758] m
    by (simp add: exampleSession_def)
  have c: "checkSlotConflicts (createSlot ?session [exampleInterviewer ''ann''] 28452060 t)
             [exampleInterviewer ''ann''] ?cal builtinDefaultOptions \<noteq> []" for t
    by (simp add: evals builtinDefaultOptions_def)
  have 6: "createAndCheckSlot ?session [exampleInterviewer ''ann''] 28452060 ?cal
             builtinDefaultOptions 0 = None"
    using findSlots_validation_and_pruning[where session = ?session
        and combo = "[exampleInterviewer ''ann'']" and slotStart = 28452060 and now = "\<lambda>n. 0"
        and st = "([], 0)" and calendarEvents = ?cal and options = builtinDefaultOptions]
      c[of 0]
    by simp
  have 7: "tryCombinations (\<lambda>slot s. Inr s) (\<lambda>n. 0) ?session 28452060 ?cal
             builtinDefaultOptions [[exampleInterviewer ''ann'']] ([], 0) = Inr ([], 1)"
    using findSlots_validation_and_pruning[where session = ?session
        and combos = "[[exampleInterviewer ''ann'']]" and slotStart = 28452060
        and now = "\<lambda>n. 0" and st = "([], 0)" and calendarEvents = ?cal
        and options = builtinDefaultOptions and recurse = "\<lambda>slot s. Inr s"]
      c
    by simp
  show ?thesis
    by (intro conjI) (rule 1 2 3 4 m 5 c 6 7)+
qed

text \<open>
  The claim as stated has an inverted date range raise a \<open>ValidationError\<close>; for two
  rounds a day apart the engine returns the empty list of plans for the range from
  2024-02-06 back to 2024-02-05.
\<close>

theorem inverted_range_counterexample:
  "fst (findSlots None (\<lambda>n. 0)
        (newSchedulingEngine \<lparr>config_timezone = ''UTC'', config_defaultOptions = None\<rparr>)
        \<lparr>find_sessions = [exampleSession ''round1'' 60 1440 1, exampleSession ''round2'' 45 0 2],
         find_interviewers = [exampleInterviewer ''ann''],
         dateRange_start = Some 19759, dateRange_end = Some 19758,
         candidateTimezone = ''UTC'', find_options = None\<rparr> 0)
     = Inr (Plans [])"
  by (simp add: evals findSlots_def mergeOptions_def spreadField_def needsMultiDayScheduling_def
          fetchCalendarEvents_def rethrow_def newSchedulingEngine_def builtinDefaultOptions_def)

section \<open>Two runs of a search\<close>

text \<open>The clock reaches a result only through the generated identifiers: two runs on the
  same inputs, with any two clocks, go through the same steps.\<close>

lemma outcome_simps [simp]:
  "outcome erase (Inl e) = Inl e"
  "outcome erase (Inr st) = Inr (map erase (fst st))"
  by (simp_all add: outcome_def)

lemma outcome_eq_InrD:
  "outcome erase x = Inr ys \<Longrightarrow> \<exists>s'. x = Inr s' \<and> map erase (fst s') = ys"
  by (cases x) auto

lemma outcome_eq_InlD: "outcome erase x = Inl e \<Longrightarrow> x = Inl e"
  by (cases x) auto

lemma maxReached_length:
  "length xs = length ys \<Longrightarrow> maxReached options xs = maxReached options ys"
  by (simp add: maxReached_def split: option.splits)

lemma maxReached_erased:
  "map erase xs = map erase ys \<Longrightarrow> maxReached options xs = maxReached options ys"
  by (rule maxReached_length) (metis length_map)

text \<open>The slot id plays no part in the conflict check.\<close>

lemma interviewerConflicts_stamp:
  "interviewerConflicts (createSlot session combo start t1) calendarEvents options
     = interviewerConflicts (createSlot session combo start t2) calendarEvents options"
  by (rule ext)
     (simp add: interviewerConflicts_def slotChunk_def calculateInterviewerLoad_def
        calculateSlotDuration_def createSlot_def Let_def cong: if_cong)

lemma checkSlotConflicts_stamp:
  "checkSlotConflicts (createSlot session combo start t1) combo calendarEvents options
     = checkSlotConflicts (createSlot session combo start t2) combo calendarEvents options"
  by (simp add: checkSlotConflicts_def
        interviewerConflicts_stamp[of session combo start t1 calendarEvents options t2])

lemma eraseSlot_createSlot:
  "eraseSlot (createSlot session combo start t1) = eraseSlot (createSlot session combo start t2)"
  by (simp add: eraseSlot_def createSlot_def)

lemma createAndCheckSlot_stamp:
  "(createAndCheckSlot session combo start calendarEvents options t1 = None
      \<longleftrightarrow> createAndCheckSlot session combo start calendarEvents options t2 = None)
   \<and> (\<forall>slot1 slot2.
         createAndCheckSlot session combo start calendarEvents options t1 = Some slot1
         \<longrightarrow> createAndCheckSlot session combo start calendarEvents options t2 = Some slot2
         \<longrightarrow> eraseSlot slot1 = eraseSlot slot2)"
  using checkSlotConflicts_stamp[of session combo start t1 calendarEvents options t2]
    eraseSlot_createSlot[of session combo start t1 t2]
  by (auto simp: createAndCheckSlot_def Let_def)

lemma tryCombinations_rel:
  assumes "map eraseCombination (fst st1) = map eraseCombination (fst st2)"
    and step: "\<And>slot1 slot2 s1 s2. eraseSlot slot1 = eraseSlot slot2 \<Longrightarrow>
        map eraseCombination (fst s1) = map eraseCombination (fst s2) \<Longrightarrow>
        outcome eraseCombination (r1 slot1 s1) = outcome eraseCombination (r2 slot2 s2)"
  shows "outcome eraseCombination
           (tryCombinations r1 now1 session start calendarEvents options combos st1)
         = outcome eraseCombination
           (tryCombinations r2 now2 session start calendarEvents options combos st2)"
  using assms(1)
proof (induction combos arbitrary: st1 st2)
  case Nil
  then show ?case by simp
next
  case (Cons combo rest)
  let ?c1 = "createAndCheckSlot session combo start calendarEvents options (now1 (snd st1))"
  let ?c2 = "createAndCheckSlot session combo start calendarEvents options (now2 (snd st2))"
  note cs = createAndCheckSlot_stamp[of session combo start calendarEvents options
      "now1 (snd st1)" "now2 (snd st2)"]
  show ?case
  proof (cases ?c1)
    case None
    then have n2: "?c2 = None" using cs by simp
    have "map eraseCombination (fst (fst st1, Suc (snd st1)))
            = map eraseCombination (fst (fst st2, Suc (snd st2)))"
      using Cons.prems by simp
    from Cons.IH[OF this] None n2 show ?thesis by simp
  next
    case (Some slot1)
    then obtain slot2 where s2: "?c2 = Some slot2" using cs by (cases ?c2) auto
    have es: "eraseSlot slot1 = eraseSlot slot2" using cs Some s2 by blast
    have o: "outcome eraseCombination (r1 slot1 (fst st1, Suc (snd st1)))
               = outcome eraseCombination (r2 slot2 (fst st2, Suc (snd st2)))"
      by (rule step[OF es]) (use Cons.prems in simp)
    show ?thesis
    proof (cases "r2 slot2 (fst st2, Suc (snd st2))")
      case (Inl e)
      with o have "r1 slot1 (fst st1, Suc (snd st1)) = Inl e"
        by (auto dest: outcome_eq_InlD)
      then show ?thesis using Some s2 Inl by simp
    next
      case (Inr s2')
      with o obtain s1' where s1: "r1 slot1 (fst st1, Suc (snd st1)) = Inr s1'"
        "map eraseCombination (fst s1') = map eraseCombination (fst s2')"
        by (auto dest: outcome_eq_InrD)
      have mr: "maxReached options (fst s1') = maxReached options (fst s2')"
        by (rule maxReached_erased[OF s1(2)])
      show ?thesis
      proof (cases "maxReached options (fst s1')")
        case True
        then show ?thesis using Some s2 Inr s1 mr by simp
      next
        case False
        then show ?thesis using Some s2 Inr s1 mr Cons.IH[OF s1(2)] by simp
      qed
    qed
  qed
qed

text \<open>What the search reads from the slots placed so far does not depend on their ids.\<close>

lemma erased_slots_facts:
  assumes "map eraseSlot xs = map eraseSlot ys"
  shows "map sessionId xs = map sessionId ys"
    and "assignedIds xs = assignedIds ys"
    and "(xs = []) = (ys = [])"
    and "xs \<noteq> [] \<Longrightarrow> slot_endTime (last xs) = slot_endTime (last ys)"
    and "xs \<noteq> [] \<Longrightarrow> slot_startTime (hd xs) = slot_startTime (hd ys)"
proof -
  have a: "map (f \<circ> eraseSlot) xs = map (f \<circ> eraseSlot) ys" for f :: "InterviewSlot \<Rightarrow> 'b"
    using arg_cong[OF assms, of "map f"] by simp
  have "sessionId \<circ> eraseSlot = sessionId" by (auto simp: eraseSlot_def)
  with a[of sessionId] show "map sessionId xs = map sessionId ys" by simp
  have "(\<lambda>slot. map interviewerId (slot_interviewers slot)) \<circ> eraseSlot
          = (\<lambda>slot. map interviewerId (slot_interviewers slot))"
    by (auto simp: eraseSlot_def)
  with a[of "\<lambda>slot. map interviewerId (slot_interviewers slot)"]
  show "assignedIds xs = assignedIds ys" by (simp add: assignedIds_def)
  show e: "(xs = []) = (ys = [])" using arg_cong[OF assms, of length] by auto
  have en: "slot_endTime \<circ> eraseSlot = slot_endTime" by (auto simp: eraseSlot_def)
  have st: "slot_startTime \<circ> eraseSlot = slot_startTime" by (auto simp: eraseSlot_def)
  show "slot_endTime (last xs) = slot_endTime (last ys)" if "xs \<noteq> []"
    using a[of slot_endTime] that e unfolding en
    by (metis last_map)
  show "slot_startTime (hd xs) = slot_startTime (hd ys)" if "xs \<noteq> []"
    using a[of slot_startTime] that e unfolding st
    by (metis hd_map)
qed

lemma explore_rel:
  assumes "map eraseSlot slots1 = map eraseSlot slots2"
    and "map eraseCombination (fst st1) = map eraseCombination (fst st2)"
  shows "outcome eraseCombination
           (exploreSlotCombinations rest now1 sessionCombinations allInterviewers date
              calendarEvents options slots1 st1)
         = outcome eraseCombination
           (exploreSlotCombinations rest now2 sessionCombinations allInterviewers date
              calendarEvents options slots2 st2)"
  using assms
proof (induction rest arbitrary: slots1 slots2 st1 st2)
  case Nil
  note f = erased_slots_facts[OF Nil.prems(1)]
  show ?case
  proof (cases slots1)
    case Nil
    then show ?thesis using f(3) by simp
  next
    case (Cons a as)
    then obtain b bs where b: "slots2 = b # bs" using f(3) by (cases slots2) auto
    have ne: "slots1 \<noteq> []" using Cons by simp
    have "slot_startTime a = slot_startTime b" using f(5)[OF ne] Cons b by simp
    moreover have "calculateTotalDuration slots1 = calculateTotalDuration slots2"
      using f(3,4,5) ne by (simp add: calculateTotalDuration_def)
    moreover have "calculateLoadDensity slots1 allInterviewers
                     = calculateLoadDensity slots2 allInterviewers"
      using f(2) by (simp add: calculateLoadDensity_def)
    ultimately show ?thesis using Cons b Nil.prems f(1) f(4)[OF ne]
      by (simp add: eraseCombination_def generateSlotCombinationId_def)
  qed
next
  case (Cons session rest)
  note f = erased_slots_facts[OF Cons.prems(1)]
  have st: "calculateSessionStartTime slots1 session date
              = calculateSessionStartTime slots2 session date"
    using f(3,4) by (auto simp: calculateSessionStartTime_def)
  show ?case
    unfolding exploreSlotCombinations.simps Let_def st
    by (rule tryCombinations_rel[OF Cons.prems(2)], rule Cons.IH)
       (use Cons.prems(1) in simp_all)
qed

lemma insort_key_map:
  "(\<And>x. k (f x) = k x) \<Longrightarrow> map f (insort_key k x xs) = insort_key k (f x) (map f xs)"
  by (induction xs) auto

lemma sort_key_map:
  "(\<And>x. k (f x) = k x) \<Longrightarrow> map f (sort_key k xs) = sort_key k (map f xs)"
  by (induction xs) (auto simp: insort_key_map)

lemma rankKey_erase: "rankKey (eraseCombination c) = rankKey c"
  by (simp add: rankKey_def eraseCombination_def)

lemma findSlotsForDay_rel:
  "outcome eraseCombination
     (findSlotsForDay now1 sessions allInterviewers date calendarEvents options tick1)
   = outcome eraseCombination
     (findSlotsForDay now2 sessions allInterviewers date calendarEvents options tick2)"
proof -
  let ?sorted = "sort_key session_order sessions"
  let ?sc = "generateInterviewerCombinations ?sorted allInterviewers options"
  let ?e1 = "exploreSlotCombinations ?sorted now1 ?sc allInterviewers date calendarEvents
               options [] ([], tick1)"
  let ?e2 = "exploreSlotCombinations ?sorted now2 ?sc allInterviewers date calendarEvents
               options [] ([], tick2)"
  have o: "outcome eraseCombination ?e1 = outcome eraseCombination ?e2"
    by (rule explore_rel) simp_all
  show ?thesis
  proof (cases ?e2)
    case (Inl e)
    with o have "?e1 = Inl e" by (auto dest: outcome_eq_InlD)
    then show ?thesis using Inl
      by (simp add: findSlotsForDay_def generateAllSlotCombinations_def Let_def)
  next
    case (Inr s2)
    with o obtain s1 where s1: "?e1 = Inr s1"
      "map eraseCombination (fst s1) = map eraseCombination (fst s2)"
      by (auto dest: outcome_eq_InrD)
    have "map eraseCombination (sort_key rankKey (fst s1))
            = map eraseCombination (sort_key rankKey (fst s2))"
      using s1(2) by (simp add: sort_key_map rankKey_erase)
    then show ?thesis using Inr s1
      by (simp add: findSlotsForDay_def generateAllSlotCombinations_def Let_def)
  qed
qed

lemma dateLoop_rel:
  assumes "map erase (fst st1) = map erase (fst st2)"
    and "\<And>d s1 s2. map erase (fst s1) = map erase (fst s2) \<Longrightarrow>
        outcome erase (body1 d s1) = outcome erase (body2 d s2)"
  shows "outcome erase (dateLoop body1 options currentDate end st1)
         = outcome erase (dateLoop body2 options currentDate end st2)"
  using assms
proof (induction body1 options currentDate "end" st1 arbitrary: st2 rule: dateLoop.induct)
  case (1 body1 options currentDate "end" st1)
  note step = "1.prems"(2)
  show ?case
  proof (cases "currentDate \<le> end")
    case False
    then show ?thesis using "1.prems"(1)
      by (subst dateLoop.simps, subst (2) dateLoop.simps) simp
  next
    case True
    have o: "outcome erase (body1 currentDate st1) = outcome erase (body2 currentDate st2)"
      by (rule step[OF "1.prems"(1)])
    show ?thesis
    proof (cases "body2 currentDate st2")
      case (Inl e)
      with o have "body1 currentDate st1 = Inl e" by (auto dest: outcome_eq_InlD)
      then show ?thesis using True Inl
        by (subst dateLoop.simps, subst (2) dateLoop.simps) simp
    next
      case (Inr s2)
      with o obtain s1 where s1: "body1 currentDate st1 = Inr s1"
        "map erase (fst s1) = map erase (fst s2)"
        by (auto dest: outcome_eq_InrD)
      have mr: "maxReached options (fst s1) = maxReached options (fst s2)"
        by (rule maxReached_erased[OF s1(2)])
      show ?thesis
      proof (cases "maxReached options (fst s1)")
        case mt: True
        then show ?thesis using True Inr s1 mr
          by (subst dateLoop.simps, subst (2) dateLoop.simps) simp
      next
        case mf: False
        have "outcome erase (dateLoop body1 options (currentDate + 1) end s1)
                = outcome erase (dateLoop body2 options (currentDate + 1) end s2)"
          by (rule "1.IH"[OF True s1(1) mf s1(2)]) (rule step)
        then show ?thesis using True Inr s1 mr mf
          by (subst dateLoop.simps, subst (2) dateLoop.simps) simp
      qed
    qed
  qed
qed

lemma instantLoop_rel:
  assumes "map erase (fst st1) = map erase (fst st2)"
    and "\<And>d s1 s2. map erase (fst s1) = map erase (fst s2) \<Longrightarrow>
        outcome erase (body1 d s1) = outcome erase (body2 d s2)"
  shows "outcome erase (instantLoop body1 options currentDate endDate st1)
         = outcome erase (instantLoop body2 options currentDate endDate st2)"
  using assms
proof (induction body1 options currentDate endDate st1 arbitrary: st2 rule: instantLoop.induct)
  case (1 body1 options currentDate endDate st1)
  note step = "1.prems"(2)
  show ?case
  proof (cases "currentDate \<le> endDate")
    case False
    then show ?thesis using "1.prems"(1)
      by (subst instantLoop.simps, subst (2) instantLoop.simps) simp
  next
    case True
    have o: "outcome erase (body1 currentDate st1) = outcome erase (body2 currentDate st2)"
      by (rule step[OF "1.prems"(1)])
    show ?thesis
    proof (cases "body2 currentDate st2")
      case (Inl e)
      with o have "body1 currentDate st1 = Inl e" by (auto dest: outcome_eq_InlD)
      then show ?thesis using True Inl
        by (subst instantLoop.simps, subst (2) instantLoop.simps) simp
    next
      case (Inr s2)
      with o obtain s1 where s1: "body1 currentDate st1 = Inr s1"
        "map erase (fst s1) = map erase (fst s2)"
        by (auto dest: outcome_eq_InrD)
      have mr: "maxReached options (fst s1) = maxReached options (fst s2)"
        by (rule maxReached_erased[OF s1(2)])
      show ?thesis
      proof (cases "maxReached options (fst s1)")
        case mt: True
        then show ?thesis using True Inr s1 mr
          by (subst instantLoop.simps, subst (2) instantLoop.simps) simp
      next
        case mf: False
        have "outcome erase (instantLoop body1 options (currentDate + MINUTES_IN_DAY) endDate s1)
                = outcome erase (instantLoop body2 options (currentDate + MINUTES_IN_DAY) endDate s2)"
          by (rule "1.IH"[OF True s1(1) mf s1(2)]) (rule step)
        then show ?thesis using True Inr s1 mr mf
          by (subst instantLoop.simps, subst (2) instantLoop.simps) simp
      qed
    qed
  qed
qed

lemma erased_combination_facts:
  assumes "eraseCombination c1 = eraseCombination c2"
  shows "assignedIds (combination_slots c1) = assignedIds (combination_slots c2)"
  using arg_cong[OF assms, of combination_slots]
  by (auto simp: eraseCombination_def dest: erased_slots_facts(2))

lemma erased_round_facts:
  assumes "eraseRound r1 = eraseRound r2"
  shows "round_date r1 = round_date r2"
    and "assignedIds (combination_slots (combination r1))
           = assignedIds (combination_slots (combination r2))"
proof -
  show "round_date r1 = round_date r2"
    using arg_cong[OF assms, of round_date] by (simp add: eraseRound_def)
  have "eraseCombination (combination r1) = eraseCombination (combination r2)"
    using arg_cong[OF assms, of combination] by (simp add: eraseRound_def)
  then show "assignedIds (combination_slots (combination r1))
           = assignedIds (combination_slots (combination r2))"
    by (rule erased_combination_facts)
qed

lemma erased_rounds_facts:
  assumes "map eraseRound rs1 = map eraseRound rs2"
  shows "map round_date rs1 = map round_date rs2"
    and "map (\<lambda>r. assignedIds (combination_slots (combination r))) rs1
           = map (\<lambda>r. assignedIds (combination_slots (combination r))) rs2"
    and "(rs1 = []) = (rs2 = [])"
    and "rs1 \<noteq> [] \<Longrightarrow> round_date (last rs1) = round_date (last rs2)"
proof -
  have rd: "round_date \<circ> eraseRound = round_date" by (auto simp: eraseRound_def)
  show d: "map round_date rs1 = map round_date rs2"
    using arg_cong[OF assms, of "map round_date"] unfolding map_map rd .
  show "map (\<lambda>r. assignedIds (combination_slots (combination r))) rs1
           = map (\<lambda>r. assignedIds (combination_slots (combination r))) rs2"
    using assms
  proof (induction rs1 arbitrary: rs2)
    case Nil
    then show ?case by simp
  next
    case (Cons r1 rest1)
    then obtain r2 rest2 where r: "rs2 = r2 # rest2" "eraseRound r1 = eraseRound r2"
      "map eraseRound rest1 = map eraseRound rest2" by (cases rs2) auto
    from Cons.IH[OF r(3)] erased_round_facts(2)[OF r(2)] r(1) show ?case by simp
  qed
  show e: "(rs1 = []) = (rs2 = [])" using arg_cong[OF assms, of length] by auto
  show "round_date (last rs1) = round_date (last rs2)" if "rs1 \<noteq> []"
    using d that e by (metis last_map)
qed

lemma hasConflict_erased:
  assumes "eraseCombination c1 = eraseCombination c2"
    and "map eraseRound rs1 = map eraseRound rs2"
  shows "hasInterviewerConflictWithPreviousRounds c1 rs1
           = hasInterviewerConflictWithPreviousRounds c2 rs2"
proof -
  have "hasInterviewerConflictWithPreviousRounds c rs
          = list_ex (\<lambda>ids. list_ex (\<lambda>intId. intId \<in> set (assignedIds (combination_slots c))) ids)
              (map (\<lambda>r. assignedIds (combination_slots (combination r))) rs)" for c rs
    by (simp add: hasInterviewerConflictWithPreviousRounds_def list_ex_iff)
  then show ?thesis
    using erased_combination_facts[OF assms(1)] erased_rounds_facts(2)[OF assms(2)] by simp
qed

lemma tryDaySlots_rel:
  assumes "map erasePlan (fst st1) = map erasePlan (fst st2)"
    and "map eraseCombination daySlots1 = map eraseCombination daySlots2"
    and prev: "map eraseRound prev1 = map eraseRound prev2"
    and step: "\<And>rp1 rp2 s1 s2. eraseRound rp1 = eraseRound rp2 \<Longrightarrow>
        map erasePlan (fst s1) = map erasePlan (fst s2) \<Longrightarrow>
        outcome erasePlan (r1 rp1 s1) = outcome erasePlan (r2 rp2 s2)"
  shows "outcome erasePlan
           (tryDaySlots r1 options prev1 currentRoundIndex currentDate currentRoundSessions
              daySlots1 st1)
         = outcome erasePlan
           (tryDaySlots r2 options prev2 currentRoundIndex currentDate currentRoundSessions
              daySlots2 st2)"
  using assms(1,2)
proof (induction daySlots1 arbitrary: daySlots2 st1 st2)
  case Nil
  then show ?case by simp
next
  case (Cons c1 rest1)
  from Cons.prems(2) obtain c2 rest2 where d2: "daySlots2 = c2 # rest2"
    and ec: "eraseCombination c1 = eraseCombination c2"
    and er: "map eraseCombination rest1 = map eraseCombination rest2"
    by (cases daySlots2) auto
  let ?rp1 = "\<lparr>roundNumber = currentRoundIndex, round_date = currentDate,
                combination = c1, round_sessions = currentRoundSessions\<rparr>"
  let ?rp2 = "\<lparr>roundNumber = currentRoundIndex, round_date = currentDate,
                combination = c2, round_sessions = currentRoundSessions\<rparr>"
  have hc: "hasInterviewerConflictWithPreviousRounds c1 prev1
              = hasInterviewerConflictWithPreviousRounds c2 prev2"
    by (rule hasConflict_erased[OF ec prev])
  show ?case
  proof (cases "hasInterviewerConflictWithPreviousRounds c1 prev1")
    case True
    then show ?thesis using hc d2 Cons.IH[OF Cons.prems(1) er] by simp
  next
    case False
    have "eraseRound ?rp1 = eraseRound ?rp2" using ec by (simp add: eraseRound_def)
    from step[OF this Cons.prems(1)]
    have o: "outcome erasePlan (r1 ?rp1 st1) = outcome erasePlan (r2 ?rp2 st2)" .
    show ?thesis
    proof (cases "r2 ?rp2 st2")
      case (Inl e)
      with o have "r1 ?rp1 st1 = Inl e" by (auto dest: outcome_eq_InlD)
      then show ?thesis using False hc d2 Inl by simp
    next
      case (Inr s2)
      with o obtain s1 where s1: "r1 ?rp1 st1 = Inr s1"
        "map erasePlan (fst s1) = map erasePlan (fst s2)"
        by (auto dest: outcome_eq_InrD)
      have mr: "maxReached options (fst s1) = maxReached options (fst s2)"
        by (rule maxReached_erased[OF s1(2)])
      show ?thesis
      proof (cases "maxReached options (fst s1)")
        case True
        then show ?thesis using False hc d2 Inr s1 mr by simp
      next
        case mf: False
        then show ?thesis using False hc d2 Inr s1 mr Cons.IH[OF s1(2) er] by simp
      qed
    qed
  qed
qed

lemma extractAllInterviewers_erased:
  "map eraseRound rs1 = map eraseRound rs2 \<Longrightarrow>
   extractAllInterviewers rs1 = extractAllInterviewers rs2"
  using erased_rounds_facts(2)[of rs1 rs2]
  by (simp add: extractAllInterviewers_def)

lemma findRoundSlots_rel:
  assumes "map eraseRound prev1 = map eraseRound prev2"
    and "map erasePlan (fst st1) = map erasePlan (fst st2)"
  shows "outcome erasePlan
           (findRoundSlots rest now1 roundCount currentRoundIndex prev1 startDate endDate
              allInterviewers calendarEvents options st1)
         = outcome erasePlan
           (findRoundSlots rest now2 roundCount currentRoundIndex prev2 startDate endDate
              allInterviewers calendarEvents options st2)"
  using assms
proof (induction rest arbitrary: currentRoundIndex prev1 prev2 st1 st2)
  case Nil
  note f = erased_rounds_facts[OF Nil.prems(1)]
  show ?case using Nil.prems f(1) extractAllInterviewers_erased[OF Nil.prems(1)]
    by (simp add: erasePlan_def generatePlanId_def)
next
  case (Cons currentRoundSessions rest)
  note f = erased_rounds_facts[OF Cons.prems(1)]
  have ss: "searchStart prev1 currentRoundSessions startDate
              = searchStart prev2 currentRoundSessions startDate"
    using f(3,4) by (auto simp: searchStart_def split: list.splits)
  show ?case
  proof (cases "searchStart prev2 currentRoundSessions startDate")
    case (Inl e)
    then show ?thesis using ss by simp
  next
    case (Inr searchStartDate)
    let ?rec1 = "\<lambda>roundPlan st''.
                   findRoundSlots rest now1 roundCount (Suc currentRoundIndex)
                     (prev1 @ [roundPlan]) startDate endDate allInterviewers
                     calendarEvents options st''"
    let ?rec2 = "\<lambda>roundPlan st''.
                   findRoundSlots rest now2 roundCount (Suc currentRoundIndex)
                     (prev2 @ [roundPlan]) startDate endDate allInterviewers
                     calendarEvents options st''"
    let ?body1 = "\<lambda>currentDate st'.
               findSlotsForRound ?rec1 now1 currentDate currentRoundSessions allInterviewers
                 calendarEvents options prev1 currentRoundIndex st'"
    let ?body2 = "\<lambda>currentDate st'.
               findSlotsForRound ?rec2 now2 currentDate currentRoundSessions allInterviewers
                 calendarEvents options prev2 currentRoundIndex st'"
    have "outcome erasePlan (dateLoop ?body1 options searchStartDate endDate st1)
            = outcome erasePlan (dateLoop ?body2 options searchStartDate endDate st2)"
    proof (rule dateLoop_rel[OF Cons.prems(2)])
      fix d and s1 s2 :: "MultiDayPlan search_state"
      assume e: "map erasePlan (fst s1) = map erasePlan (fst s2)"
      let ?d1 = "findSlotsForDay now1 currentRoundSessions allInterviewers d calendarEvents
                   options (snd s1)"
      let ?d2 = "findSlotsForDay now2 currentRoundSessions allInterviewers d calendarEvents
                   options (snd s2)"
      have od: "outcome eraseCombination ?d1 = outcome eraseCombination ?d2"
        by (rule findSlotsForDay_rel)
      show "outcome erasePlan (?body1 d s1) = outcome erasePlan (?body2 d s2)"
      proof (cases ?d2)
        case (Inl e)
        with od have "?d1 = Inl e" by (auto dest: outcome_eq_InlD)
        then show ?thesis using Inl by (simp add: findSlotsForRound_def)
      next
        case (Inr day2)
        with od obtain day1 where d1: "?d1 = Inr day1"
          "map eraseCombination (fst day1) = map eraseCombination (fst day2)"
          by (auto dest: outcome_eq_InrD)
        have "outcome erasePlan
                (tryDaySlots ?rec1 options prev1 currentRoundIndex d currentRoundSessions
                   (fst day1) (fst s1, snd day1))
              = outcome erasePlan
                (tryDaySlots ?rec2 options prev2 currentRoundIndex d currentRoundSessions
                   (fst day2) (fst s2, snd day2))"
        proof (rule tryDaySlots_rel[OF _ d1(2) Cons.prems(1)])
          show "map erasePlan (fst (fst s1, snd day1)) = map erasePlan (fst (fst s2, snd day2))"
            using e by simp
        next
          fix rp1 rp2 and t1 t2 :: "MultiDayPlan search_state"
          assume "eraseRound rp1 = eraseRound rp2"
            and "map erasePlan (fst t1) = map erasePlan (fst t2)"
          then show "outcome erasePlan (?rec1 rp1 t1) = outcome erasePlan (?rec2 rp2 t2)"
            using Cons.prems(1) by (intro Cons.IH) simp_all
        qed
        then show ?thesis using Inr d1 by (simp add: findSlotsForRound_def)
      qed
    qed
    then show ?thesis using ss Inr by simp
  qed
qed

lemma findMultiDaySlots_rel:
  "outcome erasePlan
     (findMultiDaySlots now1 sessions allInterviewers dateRange calendarEvents options tick1)
   = outcome erasePlan
     (findMultiDaySlots now2 sessions allInterviewers dateRange calendarEvents options tick2)"
  unfolding findMultiDaySlots_def Let_def
  by (rule findRoundSlots_rel) simp_all

lemma singleDayStep_rel:
  "map eraseCombination (fst s1) = map eraseCombination (fst s2) \<Longrightarrow>
   outcome eraseCombination
     (singleDayStep now1 sessions allInterviewers calendarEvents options d s1)
   = outcome eraseCombination
     (singleDayStep now2 sessions allInterviewers calendarEvents options d s2)"
  using findSlotsForDay_rel[of now1 sessions allInterviewers "formatDate d" calendarEvents
      options "snd s1" now2 "snd s2"]
  by (cases "findSlotsForDay now2 sessions allInterviewers (formatDate d) calendarEvents options
               (snd s2)")
     (auto simp: singleDayStep_def Let_def dest!: outcome_eq_InlD outcome_eq_InrD)

lemma sliceTo_map: "map f (sliceTo xs n) = sliceTo (map f xs) n"
  by (simp add: sliceTo_def take_map split: option.splits)

lemma findSlots_rel:
  "map_sum id eraseResult (fst (findSlots zonedTimeToUtc now1 engine opts tick1))
   = map_sum id eraseResult (fst (findSlots zonedTimeToUtc now2 engine opts tick2))"
proof (cases "find_sessions opts = [] \<or> find_interviewers opts = []
              \<or> dateRange_start opts = None \<or> dateRange_end opts = None")
  case True
  then show ?thesis by (auto simp: findSlots_def split: option.splits)
next
  case False
  then obtain start "end" where r: "dateRange_start opts = Some start"
    "dateRange_end opts = Some end" by auto
  let ?merged = "mergeOptions (defaultOptions engine) (find_options opts)"
  let ?cal = "fst (fetchCalendarEvents (calendarCache engine) (find_interviewers opts))"
  let ?m1 = "findMultiDaySlots now1 (find_sessions opts) (find_interviewers opts) (start, end)
               ?cal ?merged tick1"
  let ?m2 = "findMultiDaySlots now2 (find_sessions opts) (find_interviewers opts) (start, end)
               ?cal ?merged tick2"
  have om: "outcome erasePlan ?m1 = outcome erasePlan ?m2"
    by (rule findMultiDaySlots_rel)
  have multi: "map_sum id eraseResult (case ?m1 of Inl e \<Rightarrow> Inl (rethrow e)
                                        | Inr st \<Rightarrow> Inr (Plans (fst st)))
             = map_sum id eraseResult (case ?m2 of Inl e \<Rightarrow> Inl (rethrow e)
                                        | Inr st \<Rightarrow> Inr (Plans (fst st)))"
    using om by (cases ?m2) (auto simp: eraseResult_def dest!: outcome_eq_InlD outcome_eq_InrD)
  show ?thesis
  proof (cases "needsMultiDayScheduling (find_sessions opts)")
    case True
    then show ?thesis using False r multi
      by (cases ?m1; cases ?m2) (simp_all add: findSlots_def Let_def)
  next
    case nm: False
    show ?thesis
    proof (cases zonedTimeToUtc)
      case None
      then show ?thesis using False r nm
        by (simp add: findSlots_def Let_def)
    next
      case (Some toUtc)
      let ?d1 = "instantLoop (singleDayStep now1 (find_sessions opts) (find_interviewers opts)
                   ?cal ?merged) ?merged (toUtc start (engine_timezone engine))
                   (toUtc end (engine_timezone engine)) ([], tick1)"
      let ?d2 = "instantLoop (singleDayStep now2 (find_sessions opts) (find_interviewers opts)
                   ?cal ?merged) ?merged (toUtc start (engine_timezone engine))
                   (toUtc end (engine_timezone engine)) ([], tick2)"
      have od: "outcome eraseCombination ?d1 = outcome eraseCombination ?d2"
        by (rule instantLoop_rel) (simp_all add: singleDayStep_rel)
      have single: "map_sum id eraseResult
                      (case ?d1 of Inl e \<Rightarrow> Inl (rethrow e)
                       | Inr st \<Rightarrow> Inr (Combinations (sliceTo (fst st) (maxResults ?merged))))
                  = map_sum id eraseResult
                      (case ?d2 of Inl e \<Rightarrow> Inl (rethrow e)
                       | Inr st \<Rightarrow> Inr (Combinations (sliceTo (fst st) (maxResults ?merged))))"
        using od
        by (cases ?d2)
           (auto simp: eraseResult_def sliceTo_map dest!: outcome_eq_InlD outcome_eq_InrD)
      show ?thesis using False r nm Some single
        by (cases ?d1; cases ?d2) (simp_all add: findSlots_def Let_def)
    qed
  qed
qed

text \<open>
  Claim C8, as the code has it. Every slot, combination and plan gets an identifier that
  ends in the reading of \<open>Date.now()\<close> at its creation. Two runs of a search on identical
  inputs, with any two clocks, raise the same error or return result lists that are
  identical, in the same order, in every field except the clock readings inside these
  identifiers. This holds for the single-day search, the multi-day search and the engine's
  \<open>findSlots\<close>.
\<close>

theorem search_repeatable_up_to_identifiers:
  "outcome eraseCombination
     (findSlotsForDay now1 sessions allInterviewers date calendarEvents options tick1)
   = outcome eraseCombination
     (findSlotsForDay now2 sessions allInterviewers date calendarEvents options tick2)
   \<and> outcome erasePlan
     (findMultiDaySlots now1 sessions allInterviewers dateRange calendarEvents options tick1)
   = outcome erasePlan
     (findMultiDaySlots now2 sessions allInterviewers dateRange calendarEvents options tick2)
   \<and> map_sum id eraseResult (fst (findSlots zonedTimeToUtc now1 engine opts tick1))
   = map_sum id eraseResult (fst (findSlots zonedTimeToUtc now2 engine opts tick2))"
  by (intro conjI findSlotsForDay_rel findMultiDaySlots_rel findSlots_rel)

text \<open>
  The claim as stated includes all fields. The same single-day search run with the clock
  at 0 and with the clock at 1 returns lists that differ (in the identifiers).
\<close>

theorem search_identifiers_counterexample:
  "findSlotsForDay (\<lambda>n. 0) [exampleSession ''technical'' 60 0 1] [exampleInterviewer ''ann'']
     19758 noEvents emptyOptions 0
   \<noteq> findSlotsForDay (\<lambda>n. 1) [exampleSession ''technical'' 60 0 1] [exampleInterviewer ''ann'']
     19758 noEvents emptyOptions 0"
  by (simp add: evals)

end
